theory Spec2Isabelle
  imports Main
begin

section \<open>The Postgres migration driver of dialect/sql/schema/postgres.go\<close>

text \<open>
  A shallow embedding of the functions of \<^verbatim>\<open>postgres.go\<close> that read the catalog
  (\<^verbatim>\<open>init\<close>, \<^verbatim>\<open>indexes\<close>, \<^verbatim>\<open>scanColumn\<close>, \<^verbatim>\<open>foreignKeys\<close>) and that write DDL
  (\<^verbatim>\<open>setRange\<close>, \<^verbatim>\<open>cType\<close>, \<^verbatim>\<open>writeDefault\<close>, \<^verbatim>\<open>addIndex\<close>), with the helpers
  \<^verbatim>\<open>hasUniqueName\<close>, \<^verbatim>\<open>callExpr\<close> and \<^verbatim>\<open>isAlpha\<close>.
  Go strings are byte strings and are modelled as \<^typ>\<open>string\<close>; Go's \<^verbatim>\<open>int\<close> and
  \<^verbatim>\<open>int64\<close> are modelled as \<^typ>\<open>int\<close> (no function below does arithmetic on them
  beyond \<^verbatim>\<open>maxCharSize + 1\<close>).
\<close>

subsection \<open>The functions of Go's strings package that the driver calls\<close>

definition HasPrefix :: "string \<Rightarrow> string \<Rightarrow> bool" where
  "HasPrefix s prefix = (take (length prefix) s = prefix)"

definition HasSuffix :: "string \<Rightarrow> string \<Rightarrow> bool" where
  "HasSuffix s suffix =
     (length suffix \<le> length s \<and> drop (length s - length suffix) s = suffix)"

definition TrimPrefix :: "string \<Rightarrow> string \<Rightarrow> string" where
  "TrimPrefix s prefix = (if HasPrefix s prefix then drop (length prefix) s else s)"

definition TrimSuffix :: "string \<Rightarrow> string \<Rightarrow> string" where
  "TrimSuffix s suffix =
     (if HasSuffix s suffix then take (length s - length suffix) s else s)"

fun Join :: "string list \<Rightarrow> string \<Rightarrow> string" where
  "Join [] sep = []"
| "Join [x] sep = x"
| "Join (x # y # ys) sep = x @ sep @ Join (y # ys) sep"

fun Contains :: "string \<Rightarrow> string \<Rightarrow> bool" where
  "Contains [] substr = (substr = [])"
| "Contains (c # cs) substr = (HasPrefix (c # cs) substr \<or> Contains cs substr)"

text \<open>
  \<^verbatim>\<open>strings.Split(s, sep)\<close> for a non-empty separator: the pieces of \<open>s\<close> between the
  non-overlapping occurrences of \<open>sep\<close>, found from the left. \<open>cur\<close> is the piece being
  read. The driver only calls it with the separator \<^verbatim>\<open>"::"\<close>.
\<close>

function Split_from :: "string \<Rightarrow> string \<Rightarrow> string \<Rightarrow> string list" where
  "Split_from cur s sep =
     (if s = [] then [cur]
      else if sep \<noteq> [] \<and> HasPrefix s sep then cur # Split_from [] (drop (length sep) s) sep
      else Split_from (cur @ [hd s]) (tl s) sep)"
  by pat_completeness auto
termination
  by (relation "measure (\<lambda>(cur, s, sep). length s)") auto

definition Split :: "string \<Rightarrow> string \<Rightarrow> string list" where
  "Split s sep = Split_from [] s sep"

text \<open>\<^verbatim>\<open>parts[0]\<close>: \<^verbatim>\<open>strings.Split\<close> never returns an empty slice for a non-empty separator.\<close>

definition first_part :: "string list \<Rightarrow> string" where
  "first_part parts = (case parts of [] \<Rightarrow> [] | p # _ \<Rightarrow> p)"

definition Trim :: "string \<Rightarrow> string \<Rightarrow> string" where
  "Trim s cutset =
     rev (dropWhile (\<lambda>c. c \<in> set cutset) (rev (dropWhile (\<lambda>c. c \<in> set cutset) s)))"

text \<open>\<^verbatim>\<open>strings.ReplaceAll(s, old, new)\<close> for a one-byte \<open>old\<close>.\<close>

definition ReplaceAll :: "string \<Rightarrow> char \<Rightarrow> string \<Rightarrow> string" where
  "ReplaceAll s old new = concat (map (\<lambda>c. if c = old then new else [c]) s)"

text \<open>\<^verbatim>\<open>strings.IndexByte\<close> and \<^verbatim>\<open>strings.LastIndexByte\<close>: \<open>-1\<close> when the byte is absent.\<close>

definition IndexByte :: "string \<Rightarrow> char \<Rightarrow> int" where
  "IndexByte s c = (if c \<in> set s then int (length (takeWhile (\<lambda>x. x \<noteq> c) s)) else - 1)"

definition LastIndexByte :: "string \<Rightarrow> char \<Rightarrow> int" where
  "LastIndexByte s c =
     (if c \<in> set s then int (length s) - 1 - int (length (takeWhile (\<lambda>x. x \<noteq> c) (rev s)))
      else - 1)"

text \<open>
  \<^verbatim>\<open>strings.ToLower\<close> on the ASCII letters; the native type names of Postgres are ASCII,
  and other bytes are left as they are.
\<close>

definition ToLower_char :: "char \<Rightarrow> char" where
  "ToLower_char c =
     (if (65::nat) \<le> of_char c \<and> of_char c \<le> (90::nat) then char_of (of_char c + (32::nat))
      else c)"

definition ToLower :: "string \<Rightarrow> string" where
  "ToLower s = map ToLower_char s"

text \<open>The single quote, which cannot be doubled inside a string literal.\<close>

definition quote :: char where
  "quote = CHR 0x27"

subsection \<open>Decimal rendering: the verb \<^verbatim>\<open>%d\<close> of fmt.Sprintf\<close>

definition digit_char :: "nat \<Rightarrow> char" where
  "digit_char d = ''0123456789'' ! d"

function digits_of :: "nat \<Rightarrow> string" where
  "digits_of n = (if n < 10 then [digit_char n] else digits_of (n div 10) @ [digit_char (n mod 10)])"
  by pat_completeness auto
termination
  by (relation "measure (\<lambda>n. n)") auto

definition fmt_d :: "int \<Rightarrow> string" where
  "fmt_d i = (if i < 0 then CHR ''-'' # digits_of (nat (- i)) else digits_of (nat i))"

subsection \<open>The schema model\<close>

text \<open>
  Modelled from the spec: the declaration of \<^verbatim>\<open>field.Type\<close> is not in the sources at
  hand. The spec gives the semantic type as a "bounded enum: bool, int8/16/32/64 and
  unsigned variants, float32/64, string, bytes, time, JSON, UUID, enum, opaque/other".
  The constructors are the constants that \<^verbatim>\<open>postgres.go\<close> names; \<open>TypeInvalid\<close> is the
  zero value, which a freshly allocated \<^verbatim>\<open>Column\<close> holds.
\<close>

datatype field_Type =
    TypeInvalid | TypeBool | TypeTime | TypeJSON | TypeUUID | TypeBytes | TypeEnum
  | TypeString | TypeOther | TypeInt8 | TypeInt16 | TypeInt32 | TypeInt | TypeInt64
  | TypeUint8 | TypeUint16 | TypeUint32 | TypeUint | TypeUint64 | TypeFloat32 | TypeFloat64

text \<open>
  Modelled from the spec: \<^verbatim>\<open>field.Type.Numeric\<close> is not in the sources at hand. The spec
  speaks of the "purely numeric types": the signed and unsigned integers and the floats.
\<close>

definition Numeric :: "field_Type \<Rightarrow> bool" where
  "Numeric t = (t \<in> {TypeInt8, TypeInt16, TypeInt32, TypeInt, TypeInt64, TypeUint8,
                     TypeUint16, TypeUint32, TypeUint, TypeUint64, TypeFloat32, TypeFloat64})"

text \<open>
  \<^verbatim>\<open>Column.Default\<close> is an \<^verbatim>\<open>interface{}\<close>: \<^verbatim>\<open>nil\<close>, a bool, a string, or another Go
  value. An integer is kept as such; any other value is kept as the text that
  \<^verbatim>\<open>fmt.Sprint\<close> prints for it.
\<close>

datatype default_value = DBool bool | DString string | DInt int | DOther string

text \<open>
  Modelled from the spec: the declaration of \<^verbatim>\<open>Column\<close> is not in the sources at hand.
  These are the fields that \<^verbatim>\<open>postgres.go\<close> reads or writes, among those that the spec
  lists for a column. \<open>SchemaType\<close> is the map from
  dialect name to type override; a key that is absent (also in a \<^verbatim>\<open>nil\<close> map) reads as
  the empty string in Go, see \<open>override\<close>. \<open>c_typ\<close> is the unexported field \<^verbatim>\<open>typ\<close>, the
  native type read from the catalog.
\<close>

record Column =
  Name :: string
  Type :: field_Type
  SchemaType :: "string \<rightharpoonup> string"
  c_typ :: string
  Size :: int
  Nullable :: bool
  Unique :: bool
  Default :: "default_value option"

definition dialect_Postgres :: string where
  "dialect_Postgres = ''postgres''"

text \<open>\<^verbatim>\<open>c.SchemaType[dialect.Postgres]\<close>\<close>

definition override :: "Column \<Rightarrow> string" where
  "override c = (case SchemaType c dialect_Postgres of None \<Rightarrow> [] | Some t \<Rightarrow> t)"

text \<open>\<^verbatim>\<open>&Column{}\<close>: every field at its zero value.\<close>

definition new_Column :: Column where
  "new_Column = \<lparr>Name = [], Type = TypeInvalid, SchemaType = Map.empty, c_typ = [], Size = 0,
                  Nullable = False, Unique = False, Default = None\<rparr>"

text \<open>\<^verbatim>\<open>maxCharSize = 10 << 20\<close>\<close>

definition maxCharSize :: int where
  "maxCharSize = 10 * 2 ^ 20"

text \<open>
  Modelled from the spec: \<^verbatim>\<open>Column.scanTypeOr\<close> is not in the sources at hand. The spec
  gives a column "an internal resolved native-type string filled in during
  introspection"; the helper returns that string, in lower case, when introspection has
  filled it in, and the given native type otherwise.
\<close>

definition scanTypeOr :: "Column \<Rightarrow> string \<Rightarrow> string" where
  "scanTypeOr c t = (if c_typ c \<noteq> [] then ToLower (c_typ c) else t)"

subsection \<open>cType\<close>

datatype panic = Panic_unsupported_type field_Type string

text \<open>\<^verbatim>\<open>cType\<close> either returns the native type or panics; the panic is the left summand.\<close>

definition cType :: "Column \<Rightarrow> panic + string" where
  "cType c =
     (if override c \<noteq> [] then Inr (override c)
      else case Type c of
          TypeBool \<Rightarrow> Inr ''boolean''
        | TypeUint8 \<Rightarrow> Inr ''smallint''
        | TypeInt8 \<Rightarrow> Inr ''smallint''
        | TypeInt16 \<Rightarrow> Inr ''smallint''
        | TypeUint16 \<Rightarrow> Inr ''smallint''
        | TypeInt32 \<Rightarrow> Inr ''int''
        | TypeUint32 \<Rightarrow> Inr ''int''
        | TypeInt \<Rightarrow> Inr ''bigint''
        | TypeUint \<Rightarrow> Inr ''bigint''
        | TypeInt64 \<Rightarrow> Inr ''bigint''
        | TypeUint64 \<Rightarrow> Inr ''bigint''
        | TypeFloat32 \<Rightarrow> Inr (scanTypeOr c ''real'')
        | TypeFloat64 \<Rightarrow> Inr (scanTypeOr c ''double precision'')
        | TypeBytes \<Rightarrow> Inr ''bytea''
        | TypeJSON \<Rightarrow> Inr ''jsonb''
        | TypeUUID \<Rightarrow> Inr ''uuid''
        | TypeString \<Rightarrow> Inr (if Size c > maxCharSize then ''text'' else ''varchar'')
        | TypeTime \<Rightarrow> Inr (scanTypeOr c ''timestamp with time zone'')
        | TypeEnum \<Rightarrow> Inr ''varchar''
        | TypeOther \<Rightarrow> Inr (c_typ c)
        | TypeInvalid \<Rightarrow> Inl (Panic_unsupported_type (Type c) (Name c)))"

subsection \<open>Errors\<close>

text \<open>
  One constructor for each error that the driver builds with \<^verbatim>\<open>fmt.Errorf\<close>, carrying the
  values it formats; \<open>DriverError\<close> is an error that comes from the connection
  (\<^verbatim>\<open>tx.Query\<close>, \<^verbatim>\<open>tx.Exec\<close>, \<^verbatim>\<open>rows.Scan\<close>, \<^verbatim>\<open>rows.Err\<close>).
\<close>

datatype error =
    DriverError string
  | QueryingServerVersion error
  | ServerVersionNumNotFound
  | ScanningVersion error
  | MalformedVersion string
  | UnsupportedPostgresVersion string
  | ScanningColumnDescription error
  | MissingArrayType string
  | MissingUserDefinedType string
  | QueryingIndexes string error
  | ScanningIndexDescription error
  | QueryingForeignKeys string error
  | CouldNotFindTable string
  | CouldNotFindColumn string string
  | CouldNotFindRefColumn string string

subsection \<open>callExpr and isAlpha\<close>

text \<open>
  \<^verbatim>\<open>isAlpha\<close> takes a rune. The loop of \<^verbatim>\<open>callExpr\<close> decodes the prefix as UTF-8 and
  stops at the first rune that is not an ASCII letter, digit or underscore; a byte
  \<open>\<ge> 0x80\<close> starts (or is) a rune outside that range, so the test on bytes gives the same
  answer, and up to the first such byte the byte offset is the rune's index.
\<close>

definition isAlpha :: "char \<Rightarrow> bool \<Rightarrow> bool" where
  "isAlpha r digit =
     ((of_char (CHR ''a'') \<le> (of_char r :: nat) \<and> (of_char r :: nat) \<le> of_char (CHR ''z''))
      \<or> (of_char (CHR ''A'') \<le> (of_char r :: nat) \<and> (of_char r :: nat) \<le> of_char (CHR ''Z''))
      \<or> r = CHR ''_''
      \<or> (digit \<and> of_char (CHR ''0'') \<le> (of_char r :: nat) \<and> (of_char r :: nat) \<le> of_char (CHR ''9'')))"

text \<open>\<^verbatim>\<open>for i, r := range s[:i] { if !isAlpha(r, i > 0) { return false } }\<close>, from offset \<open>k\<close>.\<close>

fun alpha_loop :: "nat \<Rightarrow> string \<Rightarrow> bool" where
  "alpha_loop k [] = True"
| "alpha_loop k (r # rs) = (if \<not> isAlpha r (k > 0) then False else alpha_loop (Suc k) rs)"

text \<open>The string that \<^verbatim>\<open>callExpr\<close> goes on with after its first statement.\<close>

definition callExpr_subject :: "string \<Rightarrow> string" where
  "callExpr_subject s =
     (let parts = Split s ''::'' in
      if \<not> HasSuffix s '')'' \<and> HasSuffix (first_part parts) '')'' then first_part parts else s)"

definition callExpr :: "string \<Rightarrow> bool" where
  "callExpr s0 =
     (let s = callExpr_subject s0;
          i = IndexByte s (CHR ''('');
          j = LastIndexByte s (CHR '')'')
      in if i = - 1 \<or> i > j \<or> j \<noteq> int (length s) - 1 then False
         else alpha_loop 0 (take (nat i) s))"

subsection \<open>scanColumn\<close>

text \<open>
  A row of \<^verbatim>\<open>information_schema.columns\<close> as \<^verbatim>\<open>rows.Scan\<close> delivers it: two strings and
  six nullable values (\<^verbatim>\<open>sql.NullString\<close>, \<^verbatim>\<open>sql.NullInt64\<close>).
\<close>

record column_row =
  column_name :: string
  data_type :: string
  is_nullable :: "string option"
  column_default :: "string option"
  udt_name :: "string option"
  numeric_precision :: "int option"
  numeric_scale :: "int option"
  character_maximum_length :: "int option"

text \<open>The field \<^verbatim>\<open>Int64\<close> of a \<^verbatim>\<open>sql.NullInt64\<close>: zero when the value is NULL.\<close>

definition Int64 :: "int option \<Rightarrow> int" where
  "Int64 n = (case n of None \<Rightarrow> 0 | Some i \<Rightarrow> i)"

text \<open>The \<^verbatim>\<open>switch c.typ\<close> of \<^verbatim>\<open>scanColumn\<close>; no case matching leaves the column as it is.\<close>

definition scanColumn_switch :: "Column \<Rightarrow> column_row \<Rightarrow> error + Column" where
  "scanColumn_switch c row =
     (let t = c_typ c in
      if t = ''boolean'' then Inr (c\<lparr>Type := TypeBool\<rparr>)
      else if t = ''smallint'' then Inr (c\<lparr>Type := TypeInt16\<rparr>)
      else if t = ''integer'' then Inr (c\<lparr>Type := TypeInt32\<rparr>)
      else if t = ''bigint'' then Inr (c\<lparr>Type := TypeInt64\<rparr>)
      else if t = ''real'' then Inr (c\<lparr>Type := TypeFloat32\<rparr>)
      else if t = ''double precision'' then Inr (c\<lparr>Type := TypeFloat64\<rparr>)
      else if t = ''numeric'' \<or> t = ''decimal'' then
        Inr (case numeric_precision row of
               None \<Rightarrow> c\<lparr>Type := TypeFloat64\<rparr>
             | Some p \<Rightarrow> c\<lparr>Type := TypeFloat64,
                          SchemaType := [dialect_Postgres \<mapsto>
                            t @ ''('' @ fmt_d p @ '','' @ fmt_d (Int64 (numeric_scale row)) @ '')'']\<rparr>)
      else if t = ''text'' then Inr (c\<lparr>Type := TypeString, Size := maxCharSize + 1\<rparr>)
      else if t = ''character'' \<or> t = ''character varying'' then
        Inr (case character_maximum_length row of
               None \<Rightarrow> c\<lparr>Type := TypeString\<rparr>
             | Some n \<Rightarrow> c\<lparr>Type := TypeString,
                          SchemaType := [dialect_Postgres \<mapsto> ''varchar('' @ fmt_d n @ '')'']\<rparr>)
      else if t = ''date'' \<or> t = ''time'' \<or> t = ''timestamp'' \<or> t = ''timestamp with time zone''
              \<or> t = ''timestamp without time zone'' then Inr (c\<lparr>Type := TypeTime\<rparr>)
      else if t = ''bytea'' then Inr (c\<lparr>Type := TypeBytes\<rparr>)
      else if t = ''jsonb'' then Inr (c\<lparr>Type := TypeJSON\<rparr>)
      else if t = ''uuid'' then Inr (c\<lparr>Type := TypeUUID\<rparr>)
      else if t = ''cidr'' \<or> t = ''inet'' \<or> t = ''macaddr'' \<or> t = ''macaddr8'' then
        Inr (c\<lparr>Type := TypeOther\<rparr>)
      else if t = ''ARRAY'' then
        (case udt_name row of
           None \<Rightarrow> Inl (MissingArrayType (Name c))
         | Some udt \<Rightarrow> Inr (c\<lparr>Type := TypeOther, SchemaType := [dialect_Postgres \<mapsto> ''ARRAY''],
                               c_typ := udt\<rparr>))
      else if t = ''USER-DEFINED'' \<or> t = ''tstzrange'' \<or> t = ''interval'' then
        (case udt_name row of
           None \<Rightarrow> Inl (MissingUserDefinedType (Name c))
         | Some udt \<Rightarrow> Inr (c\<lparr>Type := TypeOther, SchemaType := [dialect_Postgres \<mapsto> udt]\<rparr>))
      else Inr c)"

text \<open>
  The second \<^verbatim>\<open>switch\<close> of \<^verbatim>\<open>scanColumn\<close>: \<open>None\<close> when it returns without scanning
  the default, otherwise the text that it hands to \<^verbatim>\<open>c.ScanDefault\<close>.
\<close>

definition scanColumn_default :: "Column \<Rightarrow> string option \<Rightarrow> string option" where
  "scanColumn_default c defaults =
     (case defaults of
        None \<Rightarrow> None
      | Some d \<Rightarrow>
          if Type c = TypeTime \<or> callExpr d then None
          else if Contains d ''::'' then Some (Trim (first_part (Split d ''::'')) [quote])
          else Some d)"

text \<open>
  \<^verbatim>\<open>scanColumn\<close> fills the column \<open>c\<close> from the outcome of \<^verbatim>\<open>rows.Scan\<close>. It ends with
  the call \<^verbatim>\<open>c.ScanDefault(text)\<close>, and \<^verbatim>\<open>Column.ScanDefault\<close> is not in the sources at
  hand: the model returns the column as it is before that call, together with the
  text handed to it (\<open>None\<close> when \<^verbatim>\<open>scanColumn\<close> returns without the call).
\<close>

definition scanColumn :: "Column \<Rightarrow> error + column_row \<Rightarrow> error + Column \<times> string option" where
  "scanColumn c scanned =
     (case scanned of
        Inl err \<Rightarrow> Inl (ScanningColumnDescription err)
      | Inr row \<Rightarrow>
          (let c1 = c\<lparr>Name := column_name row, c_typ := data_type row\<rparr>;
               c2 = (case is_nullable row of
                       None \<Rightarrow> c1
                     | Some s \<Rightarrow> c1\<lparr>Nullable := (s = ''YES'')\<rparr>)
           in (case scanColumn_switch c2 row of
                 Inl e \<Rightarrow> Inl e
               | Inr c3 \<Rightarrow> Inr (c3, scanColumn_default c3 (column_default row)))))"

subsection \<open>writeDefault\<close>

text \<open>\<^verbatim>\<open>fmt.Sprint(c.Default)\<close> and \<^verbatim>\<open>strconv.FormatBool\<close>\<close>

definition FormatBool :: "bool \<Rightarrow> string" where
  "FormatBool b = (if b then ''true'' else ''false'')"

definition Sprint :: "default_value \<Rightarrow> string" where
  "Sprint v = (case v of DBool b \<Rightarrow> FormatBool b | DString s \<Rightarrow> s | DInt i \<Rightarrow> fmt_d i
               | DOther s \<Rightarrow> s)"

text \<open>
  \<^verbatim>\<open>writeDefault\<close> adds at most one attribute to the column builder: the result is that
  attribute, or \<open>None\<close> when it returns early. \<^verbatim>\<open>Column.supportDefault\<close> is not in the
  sources at hand and is a parameter.
\<close>

definition writeDefault :: "(Column \<Rightarrow> bool) \<Rightarrow> Column \<Rightarrow> string \<Rightarrow> string option" where
  "writeDefault supportDefault c clause =
     (case Default c of
        None \<Rightarrow> None
      | Some v \<Rightarrow>
          if \<not> supportDefault c then None
          else Some (clause @ '' '' @
            (case v of
               DBool b \<Rightarrow> FormatBool b
             | DString s \<Rightarrow>
                 if Type c \<noteq> TypeUUID \<and> Type c \<noteq> TypeTime \<and> \<not> Numeric (Type c)
                 then [quote] @ ReplaceAll s quote [quote, quote] @ [quote]
                 else Sprint v
             | _ \<Rightarrow> Sprint v)))"

subsection \<open>Indexes: hasUniqueName, addIndex, indexes\<close>

text \<open>
  Modelled from the spec: the declaration of \<^verbatim>\<open>Index\<close> is not in the sources at hand.
  Its fields, as \<^verbatim>\<open>postgres.go\<close> uses them and the spec lists them: the logical name, the
  unique flag, the declared columns (\<open>Index_Columns\<close>, the field \<^verbatim>\<open>Columns\<close>), the column
  names read from the catalog (\<open>columns\<close>), the primary-key flag, and the name stored in
  the catalog (\<open>realname\<close>).
\<close>

record Index =
  Index_Name :: string
  Index_Unique :: bool
  Index_Columns :: "Column list"
  columns :: "string list"
  primary :: bool
  realname :: string

text \<open>
  Modelled from the spec: \<^verbatim>\<open>Index.columnNames\<close> is not in the sources at hand. It gives
  the names of the index's "ordered list of columns": the names read from the catalog
  for an introspected index, the names of the declared columns otherwise.
\<close>

definition columnNames :: "Index \<Rightarrow> string list" where
  "columnNames i = (if columns i \<noteq> [] then columns i else map Name (Index_Columns i))"

definition hasUniqueName :: "Index \<Rightarrow> bool" where
  "hasUniqueName i =
     (let name = TrimSuffix (Index_Name i) ''_key'';
          suffix = Join (columnNames i) ''_''
      in if \<not> HasSuffix name suffix then True else name \<noteq> suffix)"

text \<open>The index builder that \<^verbatim>\<open>addIndex\<close> returns (always \<^verbatim>\<open>IF NOT EXISTS\<close>).\<close>

record IndexBuilder =
  ib_name :: string
  ib_table :: string
  ib_unique :: bool
  ib_columns :: "string list"

definition addIndex :: "Index \<Rightarrow> string \<Rightarrow> IndexBuilder" where
  "addIndex i table =
     (let name = (if \<not> hasUniqueName i then table @ ''_'' @ Index_Name i else Index_Name i)
      in \<lparr>ib_name = name, ib_table = table, ib_unique = Index_Unique i,
          ib_columns = map Name (Index_Columns i)\<rparr>)"

text \<open>A row of \<^verbatim>\<open>indexesQuery\<close>.\<close>

record index_row =
  index_name :: string
  attname :: string
  indisprimary :: bool
  indisunique :: bool
  seq_in_index :: int

text \<open>
  The loop of \<^verbatim>\<open>indexes\<close> over the outcomes of \<^verbatim>\<open>rows.Scan\<close>. The map \<^verbatim>\<open>names\<close> holds
  exactly the indexes of \<^verbatim>\<open>idxs\<close>, each under its \<^verbatim>\<open>Name\<close>, and shares them with the
  slice: looking \<open>short\<close> up is finding the index of that name in \<open>idxs\<close>, and appending
  a column to the index found changes it in the slice.
\<close>

fun indexes_loop :: "string \<Rightarrow> Index list \<Rightarrow> (error + index_row) list \<Rightarrow> error + Index list" where
  "indexes_loop table idxs [] = Inr idxs"
| "indexes_loop table idxs (Inl err # rest) = Inl (ScanningIndexDescription err)"
| "indexes_loop table idxs (Inr r # rest) =
     (let short = TrimPrefix (index_name r) (table @ ''_'') in
      if short \<in> set (map Index_Name idxs)
      then indexes_loop table
             (map (\<lambda>idx. if Index_Name idx = short
                          then idx\<lparr>columns := columns idx @ [attname r]\<rparr> else idx) idxs) rest
      else indexes_loop table
             (idxs @ [\<lparr>Index_Name = short, Index_Unique = indisunique r, Index_Columns = [],
                       columns = [attname r], primary = indisprimary r,
                       realname = index_name r\<rparr>]) rest)"

text \<open>
  The outcome of \<^verbatim>\<open>tx.Query\<close>: an error, or the outcomes of the successive
  \<^verbatim>\<open>rows.Scan\<close> calls together with what \<^verbatim>\<open>rows.Err()\<close> returns at the end.
\<close>

type_synonym 'r query_result = "error + (error + 'r) list \<times> error option"

definition indexes :: "string \<Rightarrow> index_row query_result \<Rightarrow> error + Index list" where
  "indexes table q =
     (case q of
        Inl err \<Rightarrow> Inl (QueryingIndexes table err)
      | Inr (scans, rows_err) \<Rightarrow>
          (case indexes_loop table [] scans of
             Inl e \<Rightarrow> Inl e
           | Inr idxs \<Rightarrow> (case rows_err of Some e \<Rightarrow> Inl e | None \<Rightarrow> Inr idxs)))"

subsection \<open>Tables and setRange\<close>

text \<open>
  Modelled from the spec: the declarations of \<^verbatim>\<open>ForeignKey\<close> and \<^verbatim>\<open>Table\<close> are not in
  the sources at hand. Their fields are those that \<^verbatim>\<open>postgres.go\<close> uses, among those that
  the spec lists. \<^verbatim>\<open>ForeignKey.RefTable\<close> is a pointer to the referenced table; the model
  keeps the table's name.
\<close>

record ForeignKey =
  Symbol :: string
  FK_Columns :: "Column list"
  RefTable :: string
  RefColumns :: "Column list"

record Table =
  Table_Name :: string
  Columns :: "Column list"
  PrimaryKey :: "Column list"
  ForeignKeys :: "ForeignKey list"

text \<open>
  The transaction: the statements handed to \<^verbatim>\<open>tx.Exec\<close> so far, and the driver's answer
  to a statement.
\<close>

record Tx =
  statements :: "string list"
  answer :: "string \<Rightarrow> error option"

definition Exec :: "Tx \<Rightarrow> string \<Rightarrow> Tx \<times> error option" where
  "Exec tx query = (tx\<lparr>statements := statements tx @ [query]\<rparr>, answer tx query)"

definition setRange :: "Tx \<Rightarrow> Table \<Rightarrow> int \<Rightarrow> Tx \<times> error option" where
  "setRange tx t value0 =
     (let value = (if value0 = 0 then 1 else value0);
          pk = (case PrimaryKey t of [c] \<Rightarrow> Name c | _ \<Rightarrow> ''id'')
      in Exec tx (''ALTER TABLE '' @ Table_Name t @ '' ALTER COLUMN '' @ pk
                  @ '' RESTART WITH '' @ fmt_d value))"

subsection \<open>init\<close>

record Postgres =
  schema :: string
  version :: string

text \<open>
  Modelled from the spec: \<^verbatim>\<open>compareVersions\<close> and what it is made of are not in the
  sources at hand. The spec asks that the version "must parse into a three-part version"
  and meet the floor. The parts are decimal numbers: \<open>Atoi\<close> reads a non-empty string of
  digits whose value fits a Go \<^verbatim>\<open>int\<close> (64 bits).
\<close>

definition is_digit :: "char \<Rightarrow> bool" where
  "is_digit c = (of_char (CHR ''0'') \<le> (of_char c :: nat) \<and> (of_char c :: nat) \<le> of_char (CHR ''9''))"

definition digits_value :: "string \<Rightarrow> nat" where
  "digits_value s = foldl (\<lambda>n c. 10 * n + (of_char c - of_char (CHR ''0''))) 0 s"

definition Atoi :: "string \<Rightarrow> nat option" where
  "Atoi s = (if s \<noteq> [] \<and> list_all is_digit s \<and> digits_value s < 2 ^ 63
             then Some (digits_value s) else None)"

text \<open>
  Modelled from the spec: a version parses when it is three such numbers separated by
  dots.
\<close>

definition parseVersion :: "string \<Rightarrow> (nat \<times> nat \<times> nat) option" where
  "parseVersion v =
     (case Split v ''.'' of
        [a, b, c] \<Rightarrow>
          (case (Atoi a, Atoi b, Atoi c) of
             (Some major, Some minor, Some patch) \<Rightarrow> Some (major, minor, patch)
           | _ \<Rightarrow> None)
      | _ \<Rightarrow> None)"

text \<open>
  Modelled from the spec: versions are compared from the major number down. The result
  is \<open>-1\<close>, \<open>0\<close> or \<open>1\<close>, as the caller in \<^verbatim>\<open>postgres.go\<close> expects; a version that does
  not parse is below one that does.
\<close>

definition compare :: "nat \<Rightarrow> nat \<Rightarrow> int" where
  "compare a b = (if a < b then - 1 else if a = b then 0 else 1)"

definition compareVersions :: "string \<Rightarrow> string \<Rightarrow> int" where
  "compareVersions v1 v2 =
     (case (parseVersion v1, parseVersion v2) of
        (None, None) \<Rightarrow> 0
      | (None, Some _) \<Rightarrow> - 1
      | (Some _, None) \<Rightarrow> 1
      | (Some (major1, minor1, patch1), Some (major2, minor2, patch2)) \<Rightarrow>
          if compare major1 major2 \<noteq> 0 then compare major1 major2
          else if compare minor1 minor2 \<noteq> 0 then compare minor1 minor2
          else compare patch1 patch2)"

text \<open>\<^verbatim>\<open>fmt.Sprintf("%s.%s.%s", version[:2], version[2:4], version[4:])\<close>, for \<open>len(version) \<ge> 6\<close>.\<close>

definition version_string :: "string \<Rightarrow> string" where
  "version_string v = take 2 v @ ''.'' @ take 2 (drop 2 v) @ ''.'' @ drop 4 v"

text \<open>
  The outcome of \<^verbatim>\<open>SHOW server_version_num\<close>: the query fails, or \<^verbatim>\<open>rows.Next()\<close> is
  false (with what \<^verbatim>\<open>rows.Err()\<close> then returns), or there is a row, with the outcome
  of \<^verbatim>\<open>rows.Scan(&version)\<close>.
\<close>

datatype version_query =
    Query_failed error
  | No_row "error option"
  | Row "error + string"

text \<open>\<^verbatim>\<open>init\<close> returns the driver, whose field \<^verbatim>\<open>version\<close> it sets, and the error.\<close>

definition init :: "Postgres \<Rightarrow> version_query \<Rightarrow> Postgres \<times> error option" where
  "init d q =
     (case q of
        Query_failed err \<Rightarrow> (d, Some (QueryingServerVersion err))
      | No_row rows_err \<Rightarrow>
          (case rows_err of
             Some err \<Rightarrow> (d, Some err)
           | None \<Rightarrow> (d, Some ServerVersionNumNotFound))
      | Row (Inl err) \<Rightarrow> (d, Some (ScanningVersion err))
      | Row (Inr v) \<Rightarrow>
          if length v < 6 then (d, Some (MalformedVersion v))
          else (let d' = d\<lparr>version := version_string v\<rparr> in
                if compareVersions (version d') ''10.0.0'' = - 1
                then (d', Some (UnsupportedPostgresVersion (version d')))
                else (d', None)))"

subsection \<open>foreignKeys\<close>

text \<open>A row of \<^verbatim>\<open>fkQuery\<close>; \<open>kcu_column_name\<close> is its column \<^verbatim>\<open>kcu.column_name\<close>.\<close>

record fk_row =
  table_schema :: string
  constraint_name :: string
  table_name :: string
  kcu_column_name :: string
  foreign_table_schema :: string
  foreign_table_name :: string
  foreign_column_name :: string

text \<open>
  Modelled from the spec: \<^verbatim>\<open>Table.column\<close>, \<^verbatim>\<open>ForeignKey.column\<close> and
  \<^verbatim>\<open>ForeignKey.refColumn\<close> are not in the sources at hand. Each resolves a column by
  name in an "ordered list" of columns (the table's columns, the foreign key's local
  columns, its referenced columns): the first column of that name, if any. Likewise
  \<^verbatim>\<open>Table.AddForeignKey\<close>, which appends to the table's list of foreign keys, is not in
  the sources; \<open>foreignKeys_tables\<close> below writes the append out.
\<close>

definition column_named :: "Column list \<Rightarrow> string \<Rightarrow> Column option" where
  "column_named cs name = find (\<lambda>c. Name c = name) cs"

definition Table_column :: "Table \<Rightarrow> string \<Rightarrow> Column option" where
  "Table_column t name = column_named (Columns t) name"

definition ForeignKey_column :: "ForeignKey \<Rightarrow> string \<Rightarrow> Column option" where
  "ForeignKey_column fk name = column_named (FK_Columns fk) name"

definition ForeignKey_refColumn :: "ForeignKey \<Rightarrow> string \<Rightarrow> Column option" where
  "ForeignKey_refColumn fk name = column_named (RefColumns fk) name"

text \<open>\<^verbatim>\<open>tableLookup\<close>: a later table replaces an earlier one of the same name.\<close>

definition tableLookup :: "Table list \<Rightarrow> (string \<rightharpoonup> Table)" where
  "tableLookup tables = foldl (\<lambda>m t. m(Table_Name t \<mapsto> t)) Map.empty tables"

text \<open>The branch \<^verbatim>\<open>if fk, ok := tableFksLookup[constraintName]; ok\<close> on the key found.\<close>

definition fk_append :: "ForeignKey \<Rightarrow> fk_row \<Rightarrow> Column \<Rightarrow> Column \<Rightarrow> ForeignKey" where
  "fk_append fk r column refColumn =
     (let fk1 = (if ForeignKey_column fk (kcu_column_name r) = None
                 then fk\<lparr>FK_Columns := FK_Columns fk @ [column]\<rparr> else fk)
      in if ForeignKey_refColumn fk1 (foreign_column_name r) = None
         then fk1\<lparr>RefColumns := RefColumns fk1 @ [refColumn]\<rparr> else fk1)"

text \<open>
  The loop over the rows of one table \<open>t\<close>. \<open>fks\<close> are the foreign keys made so far in
  this loop, in the order in which \<^verbatim>\<open>t.AddForeignKey\<close> received them: the map
  \<^verbatim>\<open>tableFksLookup\<close> holds exactly these, each under its \<^verbatim>\<open>Symbol\<close>, and shares them
  with \<^verbatim>\<open>t.ForeignKeys\<close>. The result is these foreign keys when the loop stops, and the
  error it stops with, if any.
\<close>

fun foreignKeys_loop ::
  "(string \<rightharpoonup> Table) \<Rightarrow> Table \<Rightarrow> ForeignKey list \<Rightarrow> (error + fk_row) list
     \<Rightarrow> ForeignKey list \<times> error option" where
  "foreignKeys_loop lookup t fks [] = (fks, None)"
| "foreignKeys_loop lookup t fks (Inl err # rest) = (fks, Some (ScanningIndexDescription err))"
| "foreignKeys_loop lookup t fks (Inr r # rest) =
     (case lookup (foreign_table_name r) of
        None \<Rightarrow> (fks, Some (CouldNotFindTable (foreign_table_name r)))
      | Some refTable \<Rightarrow>
          (case Table_column t (kcu_column_name r) of
             None \<Rightarrow> (fks, Some (CouldNotFindColumn (kcu_column_name r) (table_name r)))
           | Some column \<Rightarrow>
               (case Table_column refTable (foreign_column_name r) of
                  None \<Rightarrow> (fks, Some (CouldNotFindRefColumn (foreign_table_name r)
                                         (foreign_column_name r)))
                | Some refColumn \<Rightarrow>
                    if constraint_name r \<in> set (map Symbol fks)
                    then foreignKeys_loop lookup t
                           (map (\<lambda>fk. if Symbol fk = constraint_name r
                                       then fk_append fk r column refColumn else fk) fks) rest
                    else foreignKeys_loop lookup t
                           (fks @ [\<lparr>Symbol = constraint_name r, FK_Columns = [column],
                                    RefTable = Table_Name refTable,
                                    RefColumns = [refColumn]\<rparr>]) rest)))"

text \<open>
  The loop over the tables. \<open>query\<close> gives the outcome of \<^verbatim>\<open>fkQuery\<close> for a table name.
  The tables are returned as the loop leaves them, also when it stops with an error.
\<close>

fun foreignKeys_tables ::
  "(string \<rightharpoonup> Table) \<Rightarrow> (string \<Rightarrow> fk_row query_result) \<Rightarrow> Table list
     \<Rightarrow> Table list \<times> error option" where
  "foreignKeys_tables lookup query [] = ([], None)"
| "foreignKeys_tables lookup query (t # ts) =
     (case query (Table_Name t) of
        Inl err \<Rightarrow> (t # ts, Some (QueryingForeignKeys (Table_Name t) err))
      | Inr (scans, rows_err) \<Rightarrow>
          (case foreignKeys_loop lookup t [] scans of
             (fks, Some err) \<Rightarrow> (t\<lparr>ForeignKeys := ForeignKeys t @ fks\<rparr> # ts, Some err)
           | (fks, None) \<Rightarrow>
               (case rows_err of
                  Some err \<Rightarrow> (t\<lparr>ForeignKeys := ForeignKeys t @ fks\<rparr> # ts, Some err)
                | None \<Rightarrow>
                    (case foreignKeys_tables lookup query ts of
                       (ts', e) \<Rightarrow> (t\<lparr>ForeignKeys := ForeignKeys t @ fks\<rparr> # ts', e)))))"

definition foreignKeys ::
  "(string \<Rightarrow> fk_row query_result) \<Rightarrow> Table list \<Rightarrow> Table list \<times> error option" where
  "foreignKeys query tables = foreignKeys_tables (tableLookup tables) query tables"

subsection \<open>Concrete schema objects\<close>

text \<open>Columns, indexes and tables on which the functions above are run below.\<close>

definition ex_col :: "string \<Rightarrow> field_Type \<Rightarrow> Column" where
  "ex_col n t = new_Column\<lparr>Name := n, Type := t\<rparr>"

definition ex_index :: "string \<Rightarrow> string list \<Rightarrow> Index" where
  "ex_index n cols =
     \<lparr>Index_Name = n, Index_Unique = False, Index_Columns = map (\<lambda>c. ex_col c TypeString) cols,
      columns = [], primary = False, realname = []\<rparr>"

definition ex_table :: "string \<Rightarrow> Column list \<Rightarrow> Column list \<Rightarrow> Table" where
  "ex_table n cols pk = \<lparr>Table_Name = n, Columns = cols, PrimaryKey = pk, ForeignKeys = []\<rparr>"

text \<open>A table with a single-column primary key and a join table with a composite one.\<close>

definition users :: Table where
  "users = ex_table ''users'' [ex_col ''id'' TypeInt64, ex_col ''name'' TypeString]
     [ex_col ''id'' TypeInt64]"


text \<open>A transaction that has executed nothing yet and whose driver accepts every statement.\<close>

definition ex_tx :: Tx where
  "ex_tx = \<lparr>statements = [], answer = (\<lambda>query. None)\<rparr>"

definition ex_pg :: Postgres where
  "ex_pg = \<lparr>schema = [], version = []\<rparr>"

text \<open>A catalog row for a column that is not nullable and has no default.\<close>

definition ex_row :: "string \<Rightarrow> string \<Rightarrow> column_row" where
  "ex_row n t = \<lparr>column_name = n, data_type = t, is_nullable = Some ''NO'', column_default = None,
     udt_name = None, numeric_precision = None, numeric_scale = None,
     character_maximum_length = None\<rparr>"

subsection \<open>Notions of the specification\<close>

text \<open>
  Modelled from the spec: the orchestrator that applies the universal-ID option is not in
  the sources at hand. The spec has it "restart its primary-key sequence/identity at
  index_in_table_list * 2^32": this is the value it passes to \<^verbatim>\<open>setRange\<close> for the
  table at position \<open>idx\<close> of the table list.
\<close>

definition pk_range_start :: "nat \<Rightarrow> int" where
  "pk_range_start idx = int idx * 2 ^ 32"




text \<open>The semantic types that have a case in the \<^verbatim>\<open>switch\<close> of \<^verbatim>\<open>cType\<close>.\<close>

definition supported_types :: "field_Type set" where
  "supported_types = {TypeBool, TypeUint8, TypeInt8, TypeInt16, TypeUint16, TypeInt32, TypeUint32,
     TypeInt, TypeUint, TypeInt64, TypeUint64, TypeFloat32, TypeFloat64, TypeBytes, TypeJSON,
     TypeUUID, TypeString, TypeTime, TypeEnum, TypeOther}"

text \<open>The catalog data types that have a case in the first \<^verbatim>\<open>switch\<close> of \<^verbatim>\<open>scanColumn\<close>.\<close>

definition recognized_data_types :: "string list" where
  "recognized_data_types = [''boolean'', ''smallint'', ''integer'', ''bigint'', ''real'',
     ''double precision'', ''numeric'', ''decimal'', ''text'', ''character'', ''character varying'',
     ''date'', ''time'', ''timestamp'', ''timestamp with time zone'', ''timestamp without time zone'',
     ''bytea'', ''jsonb'', ''uuid'', ''cidr'', ''inet'', ''macaddr'', ''macaddr8'', ''ARRAY'',
     ''USER-DEFINED'', ''tstzrange'', ''interval'']"

text \<open>
  The three numbers that a string of digits denotes as a \<^verbatim>\<open>server_version_num\<close>: two
  digits, two digits, and the rest.
\<close>

definition version_of :: "string \<Rightarrow> nat \<times> nat \<times> nat" where
  "version_of v = (digits_value (take 2 v), digits_value (take 2 (drop 2 v)), digits_value (drop 4 v))"

text \<open>One three-part version is below another: the order on (major, minor, patch).\<close>

definition version_below :: "nat \<times> nat \<times> nat \<Rightarrow> nat \<times> nat \<times> nat \<Rightarrow> bool" where
  "version_below v w =
     (case (v, w) of ((a, b, c), (x, y, z)) \<Rightarrow> a < x \<or> (a = x \<and> (b < y \<or> (b = y \<and> c < z))))"




text \<open>
  The shape that C8 claims \<^verbatim>\<open>callExpr\<close> to recognize: an identifier (a letter or an
  underscore, then letters, digits and underscores), immediately followed by a
  parenthesized list that runs to the end of the string. \<open>call_like\<close> is the same shape
  without the demand that there be an identifier.
\<close>

definition is_identifier :: "string \<Rightarrow> bool" where
  "is_identifier s = (s \<noteq> [] \<and> alpha_loop 0 s)"

definition call_shape :: "string \<Rightarrow> bool" where
  "call_shape s =
     (let ident = takeWhile (\<lambda>c. c \<noteq> CHR ''('') s
      in is_identifier ident \<and> CHR ''('' \<in> set s \<and> last s = CHR '')'')"

definition call_like :: "string \<Rightarrow> bool" where
  "call_like s =
     (alpha_loop 0 (takeWhile (\<lambda>c. c \<noteq> CHR ''('') s) \<and> CHR ''('' \<in> set s
      \<and> last s = CHR '')'')"

text \<open>
  The index name "ends with a name derived from its column list", in the words of the
  spec: the test that \<^verbatim>\<open>hasUniqueName\<close> makes first.
\<close>

definition name_fits_columns :: "string \<Rightarrow> string list \<Rightarrow> bool" where
  "name_fits_columns name cols = HasSuffix (TrimSuffix name ''_key'') (Join cols ''_'')"

text \<open>
  Notions for the foreign keys that \<^verbatim>\<open>foreignKeys\<close> builds. \<open>first_seen\<close> keeps the first
  occurrence of each name, in order. \<open>scanned_rows\<close> are the rows that \<^verbatim>\<open>rows.Scan\<close>
  delivered. \<open>fks_collect fks rows\<close>: there is one foreign key per constraint name of the
  rows, and the names of its local (referenced) columns are the local (referenced)
  column names of the rows of its constraint, each kept once, in order of first
  appearance. \<open>unresolved\<close>: the row's referenced table, its local column or its referenced
  column is not found. \<open>introspected query t t'\<close>: \<open>t'\<close> is \<open>t\<close> with such foreign keys
  added, for the rows that \<open>query\<close> returns for \<open>t\<close>.
\<close>

definition append_new :: "string list \<Rightarrow> string \<Rightarrow> string list" where
  "append_new acc x = (if x \<in> set acc then acc else acc @ [x])"

definition first_seen :: "string list \<Rightarrow> string list" where
  "first_seen xs = foldl append_new [] xs"

fun scanned_rows :: "(error + 'r) list \<Rightarrow> 'r list" where
  "scanned_rows [] = []"
| "scanned_rows (Inl e # scans) = scanned_rows scans"
| "scanned_rows (Inr r # scans) = r # scanned_rows scans"

definition constraint_rows :: "string \<Rightarrow> fk_row list \<Rightarrow> fk_row list" where
  "constraint_rows symbol rows = filter (\<lambda>r. constraint_name r = symbol) rows"

definition fks_collect :: "ForeignKey list \<Rightarrow> fk_row list \<Rightarrow> bool" where
  "fks_collect fks rows =
     (distinct (map Symbol fks) \<and> set (map Symbol fks) = set (map constraint_name rows)
      \<and> list_all (\<lambda>fk.
            map Name (FK_Columns fk)
              = first_seen (map kcu_column_name (constraint_rows (Symbol fk) rows))
          \<and> map Name (RefColumns fk)
              = first_seen (map foreign_column_name (constraint_rows (Symbol fk) rows))) fks)"

definition unresolved :: "(string \<rightharpoonup> Table) \<Rightarrow> Table \<Rightarrow> fk_row \<Rightarrow> bool" where
  "unresolved lookup t r =
     (case lookup (foreign_table_name r) of
        None \<Rightarrow> True
      | Some refTable \<Rightarrow> Table_column t (kcu_column_name r) = None
                         \<or> Table_column refTable (foreign_column_name r) = None)"

definition introspected ::
  "(string \<Rightarrow> fk_row query_result) \<Rightarrow> Table \<Rightarrow> Table \<Rightarrow> bool" where
  "introspected query t t' =
     (\<exists>scans fks. query (Table_Name t) = Inr (scans, None)
        \<and> t' = t\<lparr>ForeignKeys := ForeignKeys t @ fks\<rparr>
        \<and> fks_collect fks (scanned_rows scans))"

subsection \<open>Concrete catalog contents\<close>

text \<open>A \<^verbatim>\<open>supportDefault\<close> that accepts every column.\<close>

definition always_supported :: "Column \<Rightarrow> bool" where
  "always_supported c = True"

text \<open>The string column with the default \<^verbatim>\<open>O'Brien\<close>, and the literal \<^verbatim>\<open>'O''Brien'\<close>.\<close>

definition obrien_col :: Column where
  "obrien_col = (ex_col ''name'' TypeString)\<lparr>Default := Some (DString ''O'Brien'')\<rparr>"

definition obrien_literal :: string where
  "obrien_literal = [quote] @ ''O'' @ [quote, quote] @ ''Brien'' @ [quote]"

text \<open>The catalog rows of an index named \<open>n\<close> on the columns \<open>cols\<close>.\<close>

definition index_rows :: "string \<Rightarrow> string list \<Rightarrow> index_row list" where
  "index_rows n cols =
     map (\<lambda>c. \<lparr>index_name = n, attname = c, indisprimary = False, indisunique = False,
               seq_in_index = 1\<rparr>) cols"

definition users_name_idx_rows :: "index_row query_result" where
  "users_name_idx_rows = Inr (map Inr (index_rows ''users_name_idx'' [''name'']), None)"

text \<open>
  Foreign-key rows. \<open>orders_fk_query\<close>: two rows of one constraint of \<^verbatim>\<open>orders\<close> with
  different local columns and the same referenced column. \<open>shipments_fk_query\<close>: the four
  rows that the join of \<^verbatim>\<open>fkQuery\<close> yields for a two-column foreign key.
\<close>

definition ex_fk_row :: "string \<Rightarrow> string \<Rightarrow> string \<Rightarrow> string \<Rightarrow> string \<Rightarrow> fk_row" where
  "ex_fk_row symbol t c rt rc =
     \<lparr>table_schema = ''public'', constraint_name = symbol, table_name = t, kcu_column_name = c,
      foreign_table_schema = ''public'', foreign_table_name = rt, foreign_column_name = rc\<rparr>"

definition orders :: Table where
  "orders = ex_table ''orders''
     [ex_col ''id'' TypeInt64, ex_col ''user_id'' TypeInt64, ex_col ''owner_id'' TypeInt64]
     [ex_col ''id'' TypeInt64]"

definition orders_fk_query :: "string \<Rightarrow> fk_row query_result" where
  "orders_fk_query name =
     (if name = ''orders''
      then Inr ([Inr (ex_fk_row ''fk_user'' ''orders'' ''user_id'' ''users'' ''id''),
                 Inr (ex_fk_row ''fk_user'' ''orders'' ''owner_id'' ''users'' ''id'')], None)
      else Inr ([], None))"

definition order_lines :: Table where
  "order_lines = ex_table ''order_lines''
     [ex_col ''order_id'' TypeInt64, ex_col ''line_no'' TypeInt32]
     [ex_col ''order_id'' TypeInt64, ex_col ''line_no'' TypeInt32]"

definition shipments :: Table where
  "shipments = ex_table ''shipments''
     [ex_col ''id'' TypeInt64, ex_col ''order_id'' TypeInt64, ex_col ''line_no'' TypeInt32]
     [ex_col ''id'' TypeInt64]"

definition shipments_fk_rows :: "(error + fk_row) list" where
  "shipments_fk_rows =
     [Inr (ex_fk_row ''fk_line'' ''shipments'' ''order_id'' ''order_lines'' ''order_id''),
      Inr (ex_fk_row ''fk_line'' ''shipments'' ''order_id'' ''order_lines'' ''line_no''),
      Inr (ex_fk_row ''fk_line'' ''shipments'' ''line_no'' ''order_lines'' ''order_id''),
      Inr (ex_fk_row ''fk_line'' ''shipments'' ''line_no'' ''order_lines'' ''line_no'')]"

definition shipments_fk_query :: "string \<Rightarrow> fk_row query_result" where
  "shipments_fk_query name =
     (if name = ''shipments'' then Inr (shipments_fk_rows, None) else Inr ([], None))"

section \<open>Properties\<close>

subsection \<open>Facts about the string functions\<close>

lemma HasSuffix_self: "HasSuffix s s"
  by (simp add: HasSuffix_def)

subsection \<open>Target-side index naming\<close>

lemma hasUniqueName_iff:
  "hasUniqueName i \<longleftrightarrow> TrimSuffix (Index_Name i) ''_key'' \<noteq> Join (columnNames i) ''_''"
  by (auto simp: hasUniqueName_def Let_def HasSuffix_self)

text \<open>
  C5. \<^verbatim>\<open>addIndex\<close> names the index \<^verbatim>\<open><table>_<logical name>\<close> if and only if the logical
  name, with a trailing \<^verbatim>\<open>_key\<close> trimmed, equals the underscore-join of the index's
  column names. A logical name that does not end with that join, or that ends with it
  and is longer, is kept as it is, without the table prefix.
\<close>

theorem addIndex_name:
  "(ib_name (addIndex i table) = table @ ''_'' @ Index_Name i
      \<longleftrightarrow> TrimSuffix (Index_Name i) ''_key'' = Join (columnNames i) ''_'')
   \<and> (\<not> HasSuffix (TrimSuffix (Index_Name i) ''_key'') (Join (columnNames i) ''_'')
      \<longrightarrow> ib_name (addIndex i table) = Index_Name i)
   \<and> (HasSuffix (TrimSuffix (Index_Name i) ''_key'') (Join (columnNames i) ''_'')
        \<and> TrimSuffix (Index_Name i) ''_key'' \<noteq> Join (columnNames i) ''_''
      \<longrightarrow> ib_name (addIndex i table) = Index_Name i)"
  by (auto simp: addIndex_def Let_def hasUniqueName_iff HasSuffix_self)

theorem addIndex_name_witness:
  "ib_name (addIndex (ex_index ''name'' [''name'']) ''users'') = ''users_name''
   \<and> ib_name (addIndex (ex_index ''first_last_key'' [''first'', ''last'']) ''users'')
       = ''users_first_last_key''
   \<and> ib_name (addIndex (ex_index ''by_email'' [''name'']) ''users'') = ''by_email''
   \<and> ib_name (addIndex (ex_index ''user_name'' [''name'']) ''users'') = ''user_name''"
  using addIndex_name [of "ex_index ''name'' [''name'']" "''users''"]
        addIndex_name [of "ex_index ''first_last_key'' [''first'', ''last'']" "''users''"]
        addIndex_name [of "ex_index ''by_email'' [''name'']" "''users''"]
        addIndex_name [of "ex_index ''user_name'' [''name'']" "''users''"]
  by (simp add: ex_index_def ex_col_def new_Column_def columnNames_def TrimSuffix_def
        HasSuffix_def)

subsection \<open>setRange\<close>

lemma setRange_statements:
  "statements (fst (setRange tx t v)) =
     statements tx @ [''ALTER TABLE '' @ Table_Name t @ '' ALTER COLUMN ''
                        @ (case PrimaryKey t of [c] \<Rightarrow> Name c | _ \<Rightarrow> ''id'')
                        @ '' RESTART WITH '' @ fmt_d (if v = 0 then 1 else v)]"
  by (simp add: setRange_def Exec_def Let_def)

text \<open>
  C7. The table at position \<open>idx\<close> of the table list is restarted at \<open>idx * 2^32\<close>, and
  \<^verbatim>\<open>setRange\<close> writes that value into the \<^verbatim>\<open>RESTART WITH\<close> statement, except that it
  writes 1 for 0 (the first table); every positive value is written unchanged.
\<close>

theorem setRange_restart_value:
  "statements (fst (setRange tx t (pk_range_start idx)))
     = statements tx @ [''ALTER TABLE '' @ Table_Name t @ '' ALTER COLUMN ''
                        @ (case PrimaryKey t of [c] \<Rightarrow> Name c | _ \<Rightarrow> ''id'')
                        @ '' RESTART WITH '' @ fmt_d (if idx = 0 then 1 else int idx * 2 ^ 32)]
   \<and> statements (fst (setRange tx t 0))
     = statements tx @ [''ALTER TABLE '' @ Table_Name t @ '' ALTER COLUMN ''
                        @ (case PrimaryKey t of [c] \<Rightarrow> Name c | _ \<Rightarrow> ''id'')
                        @ '' RESTART WITH '' @ fmt_d 1]
   \<and> (0 < v \<longrightarrow> statements (fst (setRange tx t v))
     = statements tx @ [''ALTER TABLE '' @ Table_Name t @ '' ALTER COLUMN ''
                        @ (case PrimaryKey t of [c] \<Rightarrow> Name c | _ \<Rightarrow> ''id'')
                        @ '' RESTART WITH '' @ fmt_d v])"
  by (simp add: setRange_statements pk_range_start_def)

theorem setRange_restart_value_witness:
  "statements (fst (setRange ex_tx users (pk_range_start 0)))
     = [''ALTER TABLE users ALTER COLUMN id RESTART WITH 1'']
   \<and> statements (fst (setRange ex_tx users (pk_range_start 1)))
     = [''ALTER TABLE users ALTER COLUMN id RESTART WITH 4294967296'']
   \<and> statements (fst (setRange ex_tx users (pk_range_start 2)))
     = [''ALTER TABLE users ALTER COLUMN id RESTART WITH 8589934592'']
   \<and> statements (fst (setRange ex_tx users 7))
     = [''ALTER TABLE users ALTER COLUMN id RESTART WITH 7'']"
  using setRange_restart_value [of ex_tx users 0 7] setRange_restart_value [of ex_tx users 1 7]
    setRange_restart_value [of ex_tx users 2 7]
  by (simp add: users_def ex_table_def ex_tx_def ex_col_def new_Column_def fmt_d_def
        digit_char_def)

subsection \<open>The universal-ID option and composite primary keys\<close>






subsection \<open>cType is total exactly on the supported types\<close>

lemma scanColumn_switch_unrecognized:
  "c_typ c \<notin> set recognized_data_types \<Longrightarrow> scanColumn_switch c row = Inr c"
  by (simp add: scanColumn_switch_def recognized_data_types_def Let_def)

lemma cType_supported:
  "Type c \<in> supported_types \<or> override c \<noteq> [] \<Longrightarrow> \<exists>t. cType c = Inr t"
  by (cases "Type c") (auto simp: cType_def supported_types_def)

lemma cType_unsupported:
  "Type c \<notin> supported_types \<Longrightarrow> override c = [] \<Longrightarrow>
     cType c = Inl (Panic_unsupported_type (Type c) (Name c))"
  by (cases "Type c") (auto simp: cType_def supported_types_def)

text \<open>
  C10. A column whose semantic type is one of the supported types, or that has a
  non-empty Postgres type override, gets a native type from \<^verbatim>\<open>cType\<close>. A column of any
  other type without an override makes \<^verbatim>\<open>cType\<close> panic. \<^verbatim>\<open>scanColumn\<close>, run on a fresh
  column and a row whose data type is none of those it recognizes, returns such a column:
  its type is the zero type, it has no override, and \<^verbatim>\<open>cType\<close> panics on it.
\<close>

theorem cType_panics_iff_unsupported:
  "(Type c \<in> supported_types \<or> override c \<noteq> [] \<longrightarrow> (\<exists>t. cType c = Inr t))
   \<and> (Type c \<notin> supported_types \<and> override c = [] \<longrightarrow>
        cType c = Inl (Panic_unsupported_type (Type c) (Name c)))
   \<and> (data_type row \<notin> set recognized_data_types \<longrightarrow>
        (\<exists>c' lit. scanColumn new_Column (Inr row) = Inr (c', lit)
           \<and> Type c' = TypeInvalid \<and> override c' = []
           \<and> cType c' = Inl (Panic_unsupported_type TypeInvalid (column_name row))))"
proof -
  have "data_type row \<notin> set recognized_data_types \<Longrightarrow>
        (\<exists>c' lit. scanColumn new_Column (Inr row) = Inr (c', lit)
           \<and> Type c' = TypeInvalid \<and> override c' = []
           \<and> cType c' = Inl (Panic_unsupported_type TypeInvalid (column_name row)))"
    by (cases "is_nullable row")
       (simp_all add: scanColumn_def Let_def scanColumn_switch_unrecognized new_Column_def
          override_def cType_def)
  then show ?thesis
    using cType_supported [of c] cType_unsupported [of c] by blast
qed

theorem cType_panics_iff_unsupported_witness:
  "cType (ex_col ''age'' TypeInt32) = Inr ''int''
   \<and> cType (ex_col ''x'' TypeInvalid\<lparr>SchemaType := [dialect_Postgres \<mapsto> ''xml'']\<rparr>) = Inr ''xml''
   \<and> cType (ex_col ''x'' TypeInvalid) = Inl (Panic_unsupported_type TypeInvalid ''x'')
   \<and> map_sum id (\<lambda>(c, lit). cType c) (scanColumn new_Column (Inr (ex_row ''doc'' ''xml'')))
       = Inr (Inl (Panic_unsupported_type TypeInvalid ''doc''))"
  using cType_panics_iff_unsupported [of "ex_col ''age'' TypeInt32" "ex_row ''doc'' ''xml''"]
    cType_panics_iff_unsupported
      [of "ex_col ''x'' TypeInvalid\<lparr>SchemaType := [dialect_Postgres \<mapsto> ''xml'']\<rparr>"
          "ex_row ''doc'' ''xml''"]
    cType_panics_iff_unsupported [of "ex_col ''x'' TypeInvalid" "ex_row ''doc'' ''xml''"]
  by (simp add: ex_col_def new_Column_def ex_row_def cType_def override_def dialect_Postgres_def
        supported_types_def recognized_data_types_def scanColumn_def scanColumn_switch_def
        scanColumn_default_def Let_def)

subsection \<open>init and the version floor\<close>

lemma parseVersion_floor: "parseVersion ''10.0.0'' = Some (10, 0, 0)"
  by (simp add: parseVersion_def Split_def HasPrefix_def Atoi_def is_digit_def digits_value_def)

lemma compareVersions_floor:
  "parseVersion v = Some p \<Longrightarrow>
     compareVersions v ''10.0.0'' = - 1 \<longleftrightarrow> version_below p (10, 0, 0)"
  by (cases p) (auto simp: compareVersions_def parseVersion_floor compare_def version_below_def)

lemma is_digit_not_dot: "is_digit c \<Longrightarrow> c \<noteq> CHR ''.''"
  by (auto simp: is_digit_def)

lemma Split_from_plain: "CHR ''.'' \<notin> set s \<Longrightarrow> Split_from cur s ''.'' = [cur @ s]"
  by (induction s arbitrary: cur) (auto simp: HasPrefix_def)

lemma Split_from_dot:
  "CHR ''.'' \<notin> set a \<Longrightarrow>
   Split_from cur (a @ CHR ''.'' # rest) ''.'' = (cur @ a) # Split_from [] rest ''.''"
  by (induction a arbitrary: cur) (auto simp: HasPrefix_def)

lemma Split_three:
  assumes "CHR ''.'' \<notin> set a" "CHR ''.'' \<notin> set b" "CHR ''.'' \<notin> set c"
  shows "Split (a @ ''.'' @ b @ ''.'' @ c) ''.'' = [a, b, c]"
  using assms Split_from_dot [of a "[]" "b @ ''.'' @ c"] Split_from_dot [of b "[]" c]
    Split_from_plain [of c "[]"]
  by (simp add: Split_def)

lemma digits_value_snoc:
  "digits_value (s @ [c]) = 10 * digits_value s + (of_char c - of_char (CHR ''0''))"
  by (simp add: digits_value_def)

lemma digits_value_bound: "list_all is_digit s \<Longrightarrow> digits_value s < 10 ^ length s"
proof (induction s rule: rev_induct)
  case Nil
  then show ?case by (simp add: digits_value_def)
next
  case (snoc c s)
  then have "digits_value s < 10 ^ length s" and "(of_char c :: nat) - of_char (CHR ''0'') \<le> 9"
    by (auto simp: is_digit_def)
  then show ?case by (simp add: digits_value_snoc)
qed

lemma Atoi_digits:
  assumes "s \<noteq> []" "list_all is_digit s" "length s \<le> 18"
  shows "Atoi s = Some (digits_value s)"
proof -
  have "digits_value s < 10 ^ length s" using assms(2) by (rule digits_value_bound)
  also have "(10::nat) ^ length s \<le> 10 ^ 18" using assms(3) by (intro power_increasing) simp_all
  also have "(10::nat) ^ 18 < 2 ^ 63" by simp
  finally show ?thesis using assms by (simp add: Atoi_def)
qed

lemma well_formed_parses:
  assumes len: "6 \<le> length v" "length v \<le> 22" and dig: "list_all is_digit v"
  shows "parseVersion (version_string v) = Some (version_of v)"
proof -
  have sub: "list_all is_digit (take 2 v)" "list_all is_digit (take 2 (drop 2 v))"
    "list_all is_digit (drop 4 v)"
    using dig by (auto simp: list_all_iff dest: in_set_takeD in_set_dropD)
  then have nodot: "CHR ''.'' \<notin> set (take 2 v)" "CHR ''.'' \<notin> set (take 2 (drop 2 v))"
    "CHR ''.'' \<notin> set (drop 4 v)"
    using is_digit_not_dot by (auto simp: list_all_iff)
  have split: "Split (version_string v) ''.'' = [take 2 v, take 2 (drop 2 v), drop 4 v]"
    unfolding version_string_def using nodot by (rule Split_three)
  have "Atoi (take 2 v) = Some (digits_value (take 2 v))"
    using len sub by (intro Atoi_digits) auto
  moreover have "Atoi (take 2 (drop 2 v)) = Some (digits_value (take 2 (drop 2 v)))"
    using len sub by (intro Atoi_digits) auto
  moreover have "Atoi (drop 4 v) = Some (digits_value (drop 4 v))"
    using len sub by (intro Atoi_digits) auto
  ultimately show ?thesis
    by (simp add: parseVersion_def split version_of_def)
qed

text \<open>
  C6. \<^verbatim>\<open>init\<close> fails when the version variable is absent and when the version string
  has fewer than 6 characters. For a string of at least 6 characters that parses into a
  three-part version, \<^verbatim>\<open>init\<close> stores that version, fails with the unsupported-version
  error exactly when the version is below 10.0.0, and succeeds exactly when it is not;
  for a string of at least 6 characters that does not parse so, \<^verbatim>\<open>init\<close> fails as well.
  Every string of 6 to 22 decimal digits parses, into the numbers that its first two,
  its next two and its remaining digits denote.
\<close>

theorem init_version_floor:
  "(length v < 6 \<longrightarrow> init d (Row (Inr v)) = (d, Some (MalformedVersion v)))
   \<and> init d (No_row None) = (d, Some ServerVersionNumNotFound)
   \<and> (6 \<le> length v \<and> parseVersion (version_string v) = Some p \<longrightarrow>
        (snd (init d (Row (Inr v))) = Some (UnsupportedPostgresVersion (version_string v))
           \<longleftrightarrow> version_below p (10, 0, 0))
        \<and> (snd (init d (Row (Inr v))) = None \<longleftrightarrow> \<not> version_below p (10, 0, 0))
        \<and> version (fst (init d (Row (Inr v)))) = version_string v)
   \<and> (6 \<le> length v \<and> parseVersion (version_string v) = None \<longrightarrow>
        snd (init d (Row (Inr v))) = Some (UnsupportedPostgresVersion (version_string v)))
   \<and> (6 \<le> length v \<and> length v \<le> 22 \<and> list_all is_digit v \<longrightarrow>
        parseVersion (version_string v) = Some (version_of v))"
proof -
  have "parseVersion (version_string v) = None \<Longrightarrow>
          compareVersions (version_string v) ''10.0.0'' = - 1"
    by (simp add: compareVersions_def parseVersion_floor)
  then show ?thesis
    using well_formed_parses [of v]
    by (auto simp: init_def Let_def compareVersions_floor)
qed

theorem init_version_floor_witness:
  "init ex_pg (Row (Inr ''90605'')) = (ex_pg, Some (MalformedVersion ''90605''))
   \<and> init ex_pg (Row (Inr ''090605''))
       = (ex_pg\<lparr>version := ''09.06.05''\<rparr>, Some (UnsupportedPostgresVersion ''09.06.05''))
   \<and> init ex_pg (Row (Inr ''100000'')) = (ex_pg\<lparr>version := ''10.00.00''\<rparr>, None)
   \<and> init ex_pg (Row (Inr ''150004'')) = (ex_pg\<lparr>version := ''15.00.04''\<rparr>, None)
   \<and> version_of ''150004'' = (15, 0, 4)"
  using init_version_floor [of "''90605''" ex_pg "(9, 6, 5)"]
    init_version_floor [of "''090605''" ex_pg "(9, 6, 5)"]
    init_version_floor [of "''100000''" ex_pg "(10, 0, 0)"]
    init_version_floor [of "''150004''" ex_pg "(15, 0, 4)"]
  by (simp add: init_def Let_def ex_pg_def version_string_def compareVersions_def parseVersion_def
        Split_def HasPrefix_def Atoi_def is_digit_def digits_value_def compare_def
        version_below_def version_of_def)

subsection \<open>The type round trip\<close>









subsection \<open>Default values\<close>

lemma writeDefault_rendering:
  assumes "supportDefault c"
  shows "Default c = Some (DBool b) \<Longrightarrow>
           writeDefault supportDefault c clause
             = Some (clause @ '' '' @ (if b then ''true'' else ''false''))"
    and "Default c = Some (DString s) \<Longrightarrow> Type c = TypeString \<Longrightarrow>
           writeDefault supportDefault c clause
             = Some (clause @ '' '' @ [quote] @ ReplaceAll s quote [quote, quote] @ [quote])"
    and "Default c = Some (DString s) \<Longrightarrow>
           Type c = TypeTime \<or> Type c = TypeUUID \<or> Numeric (Type c) \<Longrightarrow>
           writeDefault supportDefault c clause = Some (clause @ '' '' @ s)"
  using assms by (auto simp: writeDefault_def FormatBool_def Sprint_def Numeric_def)

text \<open>
  C3, run on the column with the default \<^verbatim>\<open>O'Brien\<close>. \<^verbatim>\<open>writeDefault\<close> emits
  \<^verbatim>\<open>DEFAULT 'O''Brien'\<close>. \<^verbatim>\<open>scanColumn\<close>, reading that literal back with the cast that
  the catalog appends, strips the cast and the surrounding quotes and hands
  \<^verbatim>\<open>O''Brien\<close> to \<^verbatim>\<open>ScanDefault\<close>, the embedded quote still doubled; reading the bare
  literal back, it hands it on with its quotes. Neither text is \<^verbatim>\<open>O'Brien\<close>.
\<close>

theorem default_quote_roundtrip_evaluated:
  "writeDefault always_supported obrien_col ''DEFAULT'' = Some (''DEFAULT '' @ obrien_literal)
   \<and> scanColumn new_Column
        (Inr ((ex_row ''name'' ''character varying'')
               \<lparr>column_default := Some (obrien_literal @ ''::character varying'')\<rparr>))
       = Inr (new_Column\<lparr>Name := ''name'', Type := TypeString, c_typ := ''character varying''\<rparr>,
              Some (''O'' @ [quote, quote] @ ''Brien''))
   \<and> scanColumn new_Column
        (Inr ((ex_row ''name'' ''character varying'')\<lparr>column_default := Some obrien_literal\<rparr>))
       = Inr (new_Column\<lparr>Name := ''name'', Type := TypeString, c_typ := ''character varying''\<rparr>,
              Some obrien_literal)
   \<and> ''O'' @ [quote, quote] @ ''Brien'' \<noteq> ''O'Brien'' \<and> obrien_literal \<noteq> ''O'Brien''"
  by (simp add: writeDefault_def always_supported_def obrien_col_def obrien_literal_def ex_col_def
        new_Column_def Numeric_def ReplaceAll_def quote_def ex_row_def scanColumn_def
        scanColumn_switch_def scanColumn_default_def Let_def callExpr_def callExpr_subject_def
        Split_def HasPrefix_def HasSuffix_def first_part_def IndexByte_def LastIndexByte_def
        Trim_def)

subsection \<open>callExpr\<close>

text \<open>
  C8, as claimed, fails: \<^verbatim>\<open>callExpr\<close> accepts \<^verbatim>\<open>now()::text\<close>, where the parenthesized
  list does not run to the end of the value, and \<^verbatim>\<open>(1)\<close>, where no identifier precedes
  the parenthesis.
\<close>

theorem callExpr_shape_counterexample:
  "callExpr ''now()::text'' \<and> \<not> call_shape ''now()::text''
   \<and> callExpr ''(1)'' \<and> \<not> call_shape ''(1)''"
  by (simp add: callExpr_def callExpr_subject_def Split_def HasPrefix_def HasSuffix_def
        first_part_def IndexByte_def LastIndexByte_def isAlpha_def call_shape_def is_identifier_def
        Let_def)

lemma alpha_loop_no_paren: "alpha_loop k s \<Longrightarrow> CHR ''('' \<notin> set s"
  by (induction k s rule: alpha_loop.induct) (auto simp: isAlpha_def split: if_splits)

lemma takeWhile_until: "c \<notin> set xs \<Longrightarrow> takeWhile (\<lambda>x. x \<noteq> c) (xs @ c # ys) = xs"
  by (induction xs) auto

lemma call_shape_iff:
  "call_shape s \<longleftrightarrow> (\<exists>ident args. s = ident @ ''('' @ args @ '')'' \<and> is_identifier ident)"
proof
  assume cs: "call_shape s"
  define ident where "ident = takeWhile (\<lambda>c. c \<noteq> CHR ''('') s"
  define rest where "rest = dropWhile (\<lambda>c. c \<noteq> CHR ''('') s"
  from cs have id: "is_identifier ident" and mem: "CHR ''('' \<in> set s" and l: "last s = CHR '')''"
    by (simp_all add: call_shape_def ident_def Let_def)
  have s: "s = ident @ rest" by (simp add: ident_def rest_def)
  from mem have "rest \<noteq> []" by (auto simp: rest_def)
  then have "hd rest = CHR ''(''"
    using hd_dropWhile [of "\<lambda>c. c \<noteq> CHR ''(''" s] by (simp add: rest_def)
  with \<open>rest \<noteq> []\<close> obtain r where r: "rest = CHR ''('' # r" by (cases rest) auto
  from l s r have "last (CHR ''('' # r) = CHR '')''" by simp
  then have "r \<noteq> []" and "last r = CHR '')''" by (auto split: if_splits)
  then have "r = butlast r @ '')''" using append_butlast_last_id [of r] by simp
  with s r have "s = ident @ ''('' @ butlast r @ '')''" by simp
  with id show "\<exists>ident args. s = ident @ ''('' @ args @ '')'' \<and> is_identifier ident" by blast
next
  assume "\<exists>ident args. s = ident @ ''('' @ args @ '')'' \<and> is_identifier ident"
  then obtain ident args where s: "s = ident @ ''('' @ args @ '')''" and id: "is_identifier ident"
    by blast
  from id have "CHR ''('' \<notin> set ident" using alpha_loop_no_paren [of 0 ident] by (simp add: is_identifier_def)
  then have "takeWhile (\<lambda>c. c \<noteq> CHR ''('') s = ident"
    unfolding s by (simp add: takeWhile_until)
  with id s show "call_shape s" by (simp add: call_shape_def)
qed

lemma IndexByte_mem: "c \<in> set s \<Longrightarrow> IndexByte s c = int (length (takeWhile (\<lambda>x. x \<noteq> c) s))"
  by (simp add: IndexByte_def)

lemma takeWhile_length_less:
  "c \<in> set s \<Longrightarrow> length (takeWhile (\<lambda>x. x \<noteq> c) s) < length s"
  by (induction s) auto

lemma LastIndexByte_last:
  "LastIndexByte s c = int (length s) - 1 \<longleftrightarrow> s = [] \<and> c \<notin> set s \<or> (s \<noteq> [] \<and> last s = c)"
proof (cases "c \<in> set s")
  case False
  then show ?thesis by (cases s) (auto simp: LastIndexByte_def)
next
  case True
  then have ne: "s \<noteq> []" by auto
  have "length (takeWhile (\<lambda>x. x \<noteq> c) (rev s)) = 0 \<longleftrightarrow> last s = c"
    using ne by (cases "rev s") (auto simp: last_rev [symmetric])
  with True ne show ?thesis by (simp add: LastIndexByte_def)
qed

lemma callExpr_iff: "callExpr s \<longleftrightarrow> call_like (callExpr_subject s)"
proof -
  define t where "t = callExpr_subject s"
  show ?thesis
  proof (cases "CHR ''('' \<in> set t")
    case False
    then show ?thesis
      by (simp add: callExpr_def call_like_def t_def [symmetric] IndexByte_def Let_def)
  next
    case True
    then have ne: "t \<noteq> []" by auto
    have i: "IndexByte t (CHR ''('') = int (length (takeWhile (\<lambda>x. x \<noteq> CHR ''('') t))"
      using True by (rule IndexByte_mem)
    have lt: "length (takeWhile (\<lambda>x. x \<noteq> CHR ''('') t) < length t"
      using True by (rule takeWhile_length_less)
    have tk: "take (length (takeWhile (\<lambda>x. x \<noteq> CHR ''('') t)) t = takeWhile (\<lambda>x. x \<noteq> CHR ''('') t"
      by (rule takeWhile_eq_take [symmetric])
    have j: "LastIndexByte t (CHR '')'') = int (length t) - 1 \<longleftrightarrow> last t = CHR '')''"
      using ne by (simp add: LastIndexByte_last)
    show ?thesis
      using True lt j
      by (auto simp: callExpr_def call_like_def t_def [symmetric] i tk Let_def)
  qed
qed

text \<open>
  C8, amended. \<^verbatim>\<open>callExpr\<close> is true exactly when its subject (the value itself, or the
  text before the first \<^verbatim>\<open>::\<close> when the value does not end with a closing parenthesis but
  that text does) has a possibly empty run of identifier characters before its first
  opening parenthesis and ends with a closing parenthesis. Every value of the claimed
  shape is accepted. When the default of a catalog row is accepted, \<^verbatim>\<open>scanColumn\<close> on a
  fresh column does not hand it to \<^verbatim>\<open>ScanDefault\<close> and leaves \<^verbatim>\<open>Default\<close> unset.
\<close>

theorem callExpr_characterisation:
  "(callExpr s \<longleftrightarrow> call_like (callExpr_subject s))
   \<and> (call_shape s \<longrightarrow> callExpr s)
   \<and> (column_default row = Some d \<and> callExpr d \<and> scanColumn new_Column (Inr row) = Inr (c, lit)
        \<longrightarrow> lit = None \<and> Default c = None)"
proof -
  have "call_shape s \<Longrightarrow> callExpr s"
  proof -
    assume cs: "call_shape s"
    then have "s \<noteq> []" "last s = CHR '')''" by (auto simp: call_shape_def Let_def)
    then have "HasSuffix s '')''"
      by (cases s rule: rev_cases) (auto simp: HasSuffix_def)
    then have "callExpr_subject s = s" by (simp add: callExpr_subject_def Let_def)
    with cs show ?thesis by (simp add: callExpr_iff call_like_def call_shape_def is_identifier_def Let_def)
  qed
  moreover have "column_default row = Some d \<Longrightarrow> callExpr d \<Longrightarrow> scanColumn new_Column (Inr row) = Inr (c, lit)
        \<Longrightarrow> lit = None \<and> Default c = None"
    by (cases "is_nullable row")
       (auto simp: scanColumn_def scanColumn_default_def Let_def scanColumn_switch_def new_Column_def
             split: sum.splits if_splits option.splits)
  ultimately show ?thesis using callExpr_iff by blast
qed

theorem callExpr_characterisation_witness:
  "callExpr ''nextval('users_id_seq'::regclass)''
   \<and> call_shape ''nextval('users_id_seq'::regclass)''
   \<and> scanColumn new_Column
        (Inr ((ex_row ''id'' ''bigint'')
               \<lparr>column_default := Some ''nextval('users_id_seq'::regclass)''\<rparr>))
       = Inr (new_Column\<lparr>Name := ''id'', Type := TypeInt64, c_typ := ''bigint''\<rparr>, None)"
proof -
  let ?d = "''nextval('users_id_seq'::regclass)''"
  let ?row = "(ex_row ''id'' ''bigint'')\<lparr>column_default := Some ?d\<rparr>"
  have shape: "call_shape ?d"
    by (simp add: call_shape_def is_identifier_def isAlpha_def Let_def)
  with callExpr_characterisation [THEN conjunct2, THEN conjunct1, of ?d]
  have call: "callExpr ?d" by simp
  have "\<exists>c. scanColumn new_Column (Inr ?row) = Inr (c, None)"
  proof (cases "scanColumn new_Column (Inr ?row)")
    case (Inl e)
    then show ?thesis
      by (simp add: scanColumn_def scanColumn_switch_def ex_row_def new_Column_def Let_def)
  next
    case (Inr p)
    obtain c lit where p: "p = (c, lit)" by (cases p)
    have "column_default ?row = Some ?d" by (simp add: ex_row_def)
    with callExpr_characterisation [THEN conjunct2, THEN conjunct2, of ?row ?d c lit] call Inr p
    show ?thesis by simp
  qed
  then have "scanColumn new_Column (Inr ?row)
       = Inr (new_Column\<lparr>Name := ''id'', Type := TypeInt64, c_typ := ''bigint''\<rparr>, None)"
    by (auto simp: scanColumn_def scanColumn_switch_def ex_row_def new_Column_def Let_def)
  with shape call show ?thesis by simp
qed

subsection \<open>Index names on the live side\<close>

text \<open>
  C4, as claimed, fails: the live index \<^verbatim>\<open>users_name_idx\<close> on the column \<^verbatim>\<open>name\<close> of
  the table \<^verbatim>\<open>users\<close> is read with the prefix stripped, as \<^verbatim>\<open>name_idx\<close>, although that
  name does not end with the name derived from the column list; and neither that name
  nor the catalog name is the target's name \<^verbatim>\<open>name\<close>.
\<close>

theorem indexes_users_name_idx_counterexample:
  "indexes ''users'' users_name_idx_rows
     = Inr [\<lparr>Index_Name = ''name_idx'', Index_Unique = False, Index_Columns = [],
             columns = [''name''], primary = False, realname = ''users_name_idx''\<rparr>]
   \<and> ''name_idx'' \<noteq> ''name'' \<and> ''users_name_idx'' \<noteq> ''name''
   \<and> \<not> name_fits_columns ''name_idx'' [''name'']"
  by (simp add: indexes_def users_name_idx_rows_def index_rows_def TrimPrefix_def HasPrefix_def
        name_fits_columns_def TrimSuffix_def HasSuffix_def)

lemma indexes_loop_names:
  "indexes_loop table idxs scans = Inr idxs' \<Longrightarrow>
   \<forall>idx \<in> set idxs. Index_Name idx = TrimPrefix (realname idx) (table @ ''_'') \<Longrightarrow>
   \<forall>idx \<in> set idxs'. Index_Name idx = TrimPrefix (realname idx) (table @ ''_'')"
proof (induction table idxs scans rule: indexes_loop.induct)
  case (1 table idxs)
  then show ?case by simp
next
  case (2 table idxs err rest)
  then show ?case by simp
next
  case (3 table idxs r rest)
  define short where "short = TrimPrefix (index_name r) (table @ ''_'')"
  show ?case
  proof (cases "short \<in> set (map Index_Name idxs)")
    case True
    define idxs1 where "idxs1 = map (\<lambda>idx. if Index_Name idx = short
                          then idx\<lparr>columns := columns idx @ [attname r]\<rparr> else idx) idxs"
    have run: "indexes_loop table idxs1 rest = Inr idxs'"
      using "3.prems"(1) True by (simp add: short_def [symmetric] idxs1_def)
    have inv: "\<forall>idx \<in> set idxs1. Index_Name idx = TrimPrefix (realname idx) (table @ ''_'')"
      using "3.prems"(2) by (auto simp: idxs1_def)
    show ?thesis
      using "3.IH"(1) [OF short_def True run [unfolded idxs1_def] inv [unfolded idxs1_def]] .
  next
    case False
    define idxs1 where "idxs1 = idxs @ [\<lparr>Index_Name = short, Index_Unique = indisunique r, Index_Columns = [],
                       columns = [attname r], primary = indisprimary r,
                       realname = index_name r\<rparr>]"
    have run: "indexes_loop table idxs1 rest = Inr idxs'"
      using "3.prems"(1) False by (simp add: short_def [symmetric] idxs1_def)
    have inv: "\<forall>idx \<in> set idxs1. Index_Name idx = TrimPrefix (realname idx) (table @ ''_'')"
      using "3.prems"(2) by (auto simp: idxs1_def short_def)
    show ?thesis
      using "3.IH"(2) [OF short_def False run [unfolded idxs1_def] inv [unfolded idxs1_def]] .
  qed
qed

lemma TrimPrefix_append: "TrimPrefix (p @ s) p = s"
  by (simp add: TrimPrefix_def HasPrefix_def)

lemma indexes_loop_one_index:
  "Index_Name i0 = TrimPrefix n (table @ ''_'') \<Longrightarrow> \<forall>r \<in> set rs. index_name r = n \<Longrightarrow>
   indexes_loop table [i0] (map Inr rs) = Inr [i0\<lparr>columns := columns i0 @ map attname rs\<rparr>]"
  by (induction rs arbitrary: i0) (simp_all add: Let_def)

lemma indexes_names:
  assumes "indexes table (Inr (scans, None)) = Inr idxs"
  shows "\<forall>idx \<in> set idxs. Index_Name idx = TrimPrefix (realname idx) (table @ ''_'')"
proof -
  from assms have "indexes_loop table [] scans = Inr idxs"
    by (simp add: indexes_def split: sum.splits)
  then show ?thesis
    by (rule indexes_loop_names) simp
qed

lemma indexes_of_added_index:
  assumes ne: "rs \<noteq> []" and same: "\<forall>r \<in> set rs. index_name r = ib_name (addIndex i table)"
  shows "\<exists>idx. indexes table (Inr (map Inr rs, None)) = Inr [idx]
         \<and> realname idx = ib_name (addIndex i table)
         \<and> columns idx = map attname rs
         \<and> (if hasUniqueName i then realname idx = Index_Name i
             else Index_Name idx = Index_Name i)"
proof -
  from ne obtain r rs' where rs: "rs = r # rs'" by (cases rs) auto
  define n where "n = ib_name (addIndex i table)"
  define i0 where "i0 = \<lparr>Index_Name = TrimPrefix n (table @ ''_''), Index_Unique = indisunique r,
     Index_Columns = [], columns = [attname r], primary = indisprimary r, realname = n\<rparr>"
  have name0: "Index_Name i0 = TrimPrefix n (table @ ''_'')" by (simp add: i0_def)
  have same': "\<forall>r \<in> set rs'. index_name r = n" using same by (simp add: rs n_def)
  have r: "index_name r = n" using same by (simp add: rs n_def)
  have loop: "indexes_loop table [i0] (map Inr rs') = Inr [i0\<lparr>columns := columns i0 @ map attname rs'\<rparr>]"
    using name0 same' by (rule indexes_loop_one_index)
  have res: "indexes table (Inr (map Inr rs, None)) = Inr [i0\<lparr>columns := columns i0 @ map attname rs'\<rparr>]"
    using loop by (simp add: indexes_def rs r i0_def Let_def)
  have u: "\<not> hasUniqueName i \<Longrightarrow> TrimPrefix n (table @ ''_'') = Index_Name i"
    using TrimPrefix_append [of "table @ ''_''" "Index_Name i"] by (simp add: n_def addIndex_def)
  have v: "hasUniqueName i \<Longrightarrow> n = Index_Name i"
    by (simp add: n_def addIndex_def)
  show ?thesis
    unfolding res n_def [symmetric] using u v by (simp add: i0_def rs)
qed

text \<open>
  C4, amended. \<^verbatim>\<open>indexes\<close> strips a leading \<^verbatim>\<open><table>_\<close> from every catalog name,
  whatever the columns: each index it returns has, as its name, its catalog name without
  that prefix, and keeps the catalog name itself in \<^verbatim>\<open>realname\<close>. So an index that
  \<^verbatim>\<open>addIndex\<close> created for a target index is read back as one index, with its columns in
  row order, whose name is the target's logical name when \<^verbatim>\<open>addIndex\<close> added the prefix,
  and whose catalog name is the target's logical name when it did not.
\<close>

theorem indexes_name_reconciliation:
  "(indexes table (Inr (scans, None)) = Inr idxs \<longrightarrow>
      (\<forall>idx \<in> set idxs. Index_Name idx = TrimPrefix (realname idx) (table @ ''_'')))
   \<and> (rs \<noteq> [] \<and> (\<forall>r \<in> set rs. index_name r = ib_name (addIndex i table)) \<longrightarrow>
      (\<exists>idx. indexes table (Inr (map Inr rs, None)) = Inr [idx]
         \<and> realname idx = ib_name (addIndex i table)
         \<and> columns idx = map attname rs
         \<and> (if hasUniqueName i then realname idx = Index_Name i
             else Index_Name idx = Index_Name i)))"
  using indexes_names [of table scans idxs] indexes_of_added_index [of rs i table] by blast

theorem indexes_name_reconciliation_witness:
  "ib_name (addIndex (ex_index ''name'' [''name'']) ''users'') = ''users_name''
   \<and> indexes ''users'' (Inr (map Inr (index_rows ''users_name'' [''name'']), None))
     = Inr [\<lparr>Index_Name = ''name'', Index_Unique = False, Index_Columns = [],
             columns = [''name''], primary = False, realname = ''users_name''\<rparr>]"
proof -
  have n: "ib_name (addIndex (ex_index ''name'' [''name'']) ''users'') = ''users_name''"
    by (simp add: addIndex_def hasUniqueName_def ex_index_def ex_col_def new_Column_def
          columnNames_def TrimSuffix_def HasSuffix_def Let_def)
  have h: "index_rows ''users_name'' [''name''] \<noteq> []
     \<and> (\<forall>r \<in> set (index_rows ''users_name'' [''name'']).
           index_name r = ib_name (addIndex (ex_index ''name'' [''name'']) ''users''))"
    by (simp add: n index_rows_def)
  have e: "indexes ''users'' (Inr (map Inr (index_rows ''users_name'' [''name'']), None))
     = Inr [\<lparr>Index_Name = ''name'', Index_Unique = False, Index_Columns = [],
             columns = [''name''], primary = False, realname = ''users_name''\<rparr>]"
    by (simp add: indexes_def index_rows_def TrimPrefix_def HasPrefix_def)
  from indexes_name_reconciliation [THEN conjunct2, rule_format, OF h]
  obtain idx where "indexes ''users'' (Inr (map Inr (index_rows ''users_name'' [''name'']), None))
      = Inr [idx]"
    by blast
  with e n show ?thesis by simp
qed

subsection \<open>Foreign keys\<close>

text \<open>
  C9, as claimed, fails: from two rows of the constraint \<^verbatim>\<open>fk_user\<close> of \<^verbatim>\<open>orders\<close>,
  \<^verbatim>\<open>(user_id, users.id)\<close> and \<^verbatim>\<open>(owner_id, users.id)\<close>, \<^verbatim>\<open>foreignKeys\<close> builds a foreign
  key with two local columns and one referenced column.
\<close>

theorem foreignKeys_unpaired_counterexample:
  "foreignKeys orders_fk_query [orders, users]
     = ([orders\<lparr>ForeignKeys :=
                  [\<lparr>Symbol = ''fk_user'',
                    FK_Columns = [ex_col ''user_id'' TypeInt64, ex_col ''owner_id'' TypeInt64],
                    RefTable = ''users'', RefColumns = [ex_col ''id'' TypeInt64]\<rparr>]\<rparr>,
         users], None)
   \<and> length [ex_col ''user_id'' TypeInt64, ex_col ''owner_id'' TypeInt64]
       \<noteq> length [ex_col ''id'' TypeInt64]"
  by (simp add: foreignKeys_def tableLookup_def orders_fk_query_def orders_def users_def
        ex_table_def ex_fk_row_def Table_column_def column_named_def ex_col_def new_Column_def
        fk_append_def ForeignKey_column_def ForeignKey_refColumn_def Let_def)

lemma column_named_Some: "column_named cs n = Some c \<Longrightarrow> Name c = n"
  by (auto simp: column_named_def find_Some_iff)

lemma column_named_None: "column_named cs n = None \<longleftrightarrow> n \<notin> set (map Name cs)"
  by (auto simp: column_named_def find_None_iff)

lemma first_seen_snoc: "first_seen (xs @ [x]) = append_new (first_seen xs) x"
  by (simp add: first_seen_def)

lemma fk_append_Symbol: "Symbol (fk_append fk r column refColumn) = Symbol fk"
  by (simp add: fk_append_def Let_def)

lemma fk_append_Columns:
  "Name column = kcu_column_name r \<Longrightarrow>
   map Name (FK_Columns (fk_append fk r column refColumn))
     = append_new (map Name (FK_Columns fk)) (kcu_column_name r)"
  by (simp add: fk_append_def Let_def append_new_def ForeignKey_column_def
        ForeignKey_refColumn_def column_named_None)

lemma fk_append_RefColumns:
  "Name refColumn = foreign_column_name r \<Longrightarrow>
   map Name (RefColumns (fk_append fk r column refColumn))
     = append_new (map Name (RefColumns fk)) (foreign_column_name r)"
  by (simp add: fk_append_def Let_def append_new_def ForeignKey_column_def
        ForeignKey_refColumn_def column_named_None)

lemma constraint_rows_snoc:
  "constraint_rows s (rows @ [r])
     = (if constraint_name r = s then constraint_rows s rows @ [r] else constraint_rows s rows)"
  by (simp add: constraint_rows_def)

lemma fks_collect_update:
  assumes inv: "fks_collect fks rows"
    and mem: "constraint_name r \<in> set (map Symbol fks)"
    and c: "Name column = kcu_column_name r" and rc: "Name refColumn = foreign_column_name r"
  shows "fks_collect (map (\<lambda>fk. if Symbol fk = constraint_name r
                                then fk_append fk r column refColumn else fk) fks) (rows @ [r])"
proof -
  let ?f = "\<lambda>fk. if Symbol fk = constraint_name r then fk_append fk r column refColumn else fk"
  have sym: "map Symbol (map ?f fks) = map Symbol fks"
    by (simp add: fk_append_Symbol cong: map_cong)
  have names: "set (map Symbol fks) = set (map constraint_name (rows @ [r]))"
    using inv mem by (auto simp: fks_collect_def)
  have each: "map Name (FK_Columns (?f fk))
        = first_seen (map kcu_column_name (constraint_rows (Symbol (?f fk)) (rows @ [r])))
      \<and> map Name (RefColumns (?f fk))
        = first_seen (map foreign_column_name (constraint_rows (Symbol (?f fk)) (rows @ [r])))"
    if "fk \<in> set fks" for fk
  proof -
    from inv that have old: "map Name (FK_Columns fk)
          = first_seen (map kcu_column_name (constraint_rows (Symbol fk) rows))"
      "map Name (RefColumns fk)
          = first_seen (map foreign_column_name (constraint_rows (Symbol fk) rows))"
      by (simp_all add: fks_collect_def list_all_iff)
    show ?thesis
    proof (cases "Symbol fk = constraint_name r")
      case True
      then show ?thesis
        using old c rc
        by (simp add: fk_append_Symbol fk_append_Columns fk_append_RefColumns
              constraint_rows_snoc first_seen_snoc)
    next
      case False
      then have "constraint_name r \<noteq> Symbol fk" by simp
      with False show ?thesis
        using old by (simp add: constraint_rows_snoc)
    qed
  qed
  have all: "list_all (\<lambda>fk. map Name (FK_Columns fk)
        = first_seen (map kcu_column_name (constraint_rows (Symbol fk) (rows @ [r])))
      \<and> map Name (RefColumns fk)
        = first_seen (map foreign_column_name (constraint_rows (Symbol fk) (rows @ [r]))))
      (map ?f fks)"
    unfolding list_all_iff
  proof
    fix fk' assume "fk' \<in> set (map ?f fks)"
    then obtain fk where "fk \<in> set fks" and "fk' = ?f fk" by auto
    with each [of fk] show "map Name (FK_Columns fk')
        = first_seen (map kcu_column_name (constraint_rows (Symbol fk') (rows @ [r])))
      \<and> map Name (RefColumns fk')
        = first_seen (map foreign_column_name (constraint_rows (Symbol fk') (rows @ [r])))"
      by simp
  qed
  from inv have "distinct (map Symbol fks)" by (simp add: fks_collect_def)
  with names all show ?thesis
    unfolding fks_collect_def sym by simp
qed

lemma fks_collect_new:
  assumes inv: "fks_collect fks rows"
    and new: "constraint_name r \<notin> set (map Symbol fks)"
    and c: "Name column = kcu_column_name r" and rc: "Name refColumn = foreign_column_name r"
  shows "fks_collect (fks @ [\<lparr>Symbol = constraint_name r, FK_Columns = [column],
                                RefTable = n, RefColumns = [refColumn]\<rparr>]) (rows @ [r])"
proof -
  let ?new = "\<lparr>Symbol = constraint_name r, FK_Columns = [column], RefTable = n,
               RefColumns = [refColumn]\<rparr>"
  from inv have d: "distinct (map Symbol fks)"
    and names: "set (map Symbol fks) = set (map constraint_name rows)"
    by (simp_all add: fks_collect_def)
  from new names have "constraint_name r \<notin> set (map constraint_name rows)" by simp
  then have "\<forall>x \<in> set rows. constraint_name x \<noteq> constraint_name r"
    by (metis image_eqI list.set_map)
  then have none: "constraint_rows (constraint_name r) rows = []"
    by (simp add: constraint_rows_def filter_empty_conv)
  have each: "map Name (FK_Columns fk)
        = first_seen (map kcu_column_name (constraint_rows (Symbol fk) (rows @ [r])))
      \<and> map Name (RefColumns fk)
        = first_seen (map foreign_column_name (constraint_rows (Symbol fk) (rows @ [r])))"
    if "fk \<in> set fks" for fk
  proof -
    from that new have "constraint_name r \<noteq> Symbol fk" by auto
    with inv that show ?thesis
      by (simp add: fks_collect_def list_all_iff constraint_rows_snoc)
  qed
  have newfk: "map Name (FK_Columns ?new)
        = first_seen (map kcu_column_name (constraint_rows (Symbol ?new) (rows @ [r])))
      \<and> map Name (RefColumns ?new)
        = first_seen (map foreign_column_name (constraint_rows (Symbol ?new) (rows @ [r])))"
    using c rc by (simp add: constraint_rows_snoc none first_seen_def append_new_def)
  have d': "distinct (map Symbol (fks @ [?new]))" using d new by simp
  have names': "set (map Symbol (fks @ [?new])) = set (map constraint_name (rows @ [r]))"
    using names by simp
  have all: "list_all (\<lambda>fk. map Name (FK_Columns fk)
        = first_seen (map kcu_column_name (constraint_rows (Symbol fk) (rows @ [r])))
      \<and> map Name (RefColumns fk)
        = first_seen (map foreign_column_name (constraint_rows (Symbol fk) (rows @ [r]))))
      (fks @ [?new])"
    unfolding list_all_iff
  proof
    fix fk assume "fk \<in> set (fks @ [?new])"
    then have "fk \<in> set fks \<or> fk = ?new" by auto
    with each [of fk] newfk show "map Name (FK_Columns fk)
        = first_seen (map kcu_column_name (constraint_rows (Symbol fk) (rows @ [r])))
      \<and> map Name (RefColumns fk)
        = first_seen (map foreign_column_name (constraint_rows (Symbol fk) (rows @ [r])))"
      by blast
  qed
  from d' names' all show ?thesis
    unfolding fks_collect_def by blast
qed


lemma foreignKeys_loop_collects:
  "foreignKeys_loop lookup t fks scans = (fks', None) \<Longrightarrow> fks_collect fks rows \<Longrightarrow>
   fks_collect fks' (rows @ scanned_rows scans)"
proof (induction lookup t fks scans arbitrary: rows rule: foreignKeys_loop.induct)
  case (1 lookup t fks)
  then show ?case by simp
next
  case (2 lookup t fks err rest)
  then show ?case by simp
next
  case (3 lookup t fks r rest)
  from "3.prems"(1) obtain refTable where rt: "lookup (foreign_table_name r) = Some refTable"
    by (cases "lookup (foreign_table_name r)") auto
  from "3.prems"(1) rt obtain column where col: "Table_column t (kcu_column_name r) = Some column"
    by (cases "Table_column t (kcu_column_name r)") auto
  from "3.prems"(1) rt col obtain refColumn
    where ref: "Table_column refTable (foreign_column_name r) = Some refColumn"
    by (cases "Table_column refTable (foreign_column_name r)") auto
  have c: "Name column = kcu_column_name r"
    using col by (simp add: Table_column_def column_named_Some)
  have rc: "Name refColumn = foreign_column_name r"
    using ref by (simp add: Table_column_def column_named_Some)
  show ?case
  proof (cases "constraint_name r \<in> set (map Symbol fks)")
    case True
    let ?fks1 = "map (\<lambda>fk. if Symbol fk = constraint_name r
                            then fk_append fk r column refColumn else fk) fks"
    have run: "foreignKeys_loop lookup t ?fks1 rest = (fks', None)"
      using "3.prems"(1) rt col ref True by simp
    have inv: "fks_collect ?fks1 (rows @ [r])"
      using "3.prems"(2) True c rc by (rule fks_collect_update)
    from "3.IH"(1) [OF rt col ref True run inv] show ?thesis by simp
  next
    case False
    let ?fks1 = "fks @ [\<lparr>Symbol = constraint_name r, FK_Columns = [column],
                          RefTable = Table_Name refTable, RefColumns = [refColumn]\<rparr>]"
    have run: "foreignKeys_loop lookup t ?fks1 rest = (fks', None)"
      using "3.prems"(1) rt col ref False by simp
    have inv: "fks_collect ?fks1 (rows @ [r])"
      using "3.prems"(2) False c rc by (rule fks_collect_new)
    from "3.IH"(2) [OF rt col ref False run inv] show ?thesis by simp
  qed
qed

lemma foreignKeys_loop_unresolved:
  "Inr r \<in> set scans \<Longrightarrow> unresolved lookup t r \<Longrightarrow>
   snd (foreignKeys_loop lookup t fks scans) \<noteq> None"
proof (induction lookup t fks scans rule: foreignKeys_loop.induct)
  case (1 lookup t fks)
  then show ?case by simp
next
  case (2 lookup t fks err rest)
  then show ?case by simp
next
  case (3 lookup t fks r0 rest)
  show ?case
  proof (cases "unresolved lookup t r0")
    case True
    then show ?thesis
      by (auto simp: unresolved_def split: option.splits)
  next
    case False
    then obtain refTable column refColumn
      where rt: "lookup (foreign_table_name r0) = Some refTable"
        and col: "Table_column t (kcu_column_name r0) = Some column"
        and ref: "Table_column refTable (foreign_column_name r0) = Some refColumn"
      by (auto simp: unresolved_def split: option.splits)
    from False "3.prems" have mem: "Inr r \<in> set rest" by auto
    show ?thesis
    proof (cases "constraint_name r0 \<in> set (map Symbol fks)")
      case True
      from "3.IH"(1) [OF rt col ref True mem "3.prems"(2)] show ?thesis
        using rt col ref True by simp
    next
      case False
      from "3.IH"(2) [OF rt col ref False mem "3.prems"(2)] show ?thesis
        using rt col ref False by simp
    qed
  qed
qed

lemma fks_collect_Nil: "fks_collect [] []"
  by (simp add: fks_collect_def)

lemma foreignKeys_tables_introspected:
  "foreignKeys_tables lookup query ts = (ts', None) \<Longrightarrow> list_all2 (introspected query) ts ts'"
proof (induction ts arbitrary: ts')
  case Nil
  then show ?case by simp
next
  case (Cons t ts)
  from Cons.prems obtain scans rows_err where q: "query (Table_Name t) = Inr (scans, rows_err)"
    by (cases "query (Table_Name t)") auto
  obtain fks e where loop: "foreignKeys_loop lookup t [] scans = (fks, e)"
    by (cases "foreignKeys_loop lookup t [] scans")
  from Cons.prems q loop have e: "e = None" by (cases e) auto
  from Cons.prems q loop e have re: "rows_err = None" by (cases rows_err) auto
  obtain ts1 e1 where rec: "foreignKeys_tables lookup query ts = (ts1, e1)"
    by (cases "foreignKeys_tables lookup query ts")
  from Cons.prems q loop e re rec
  have res: "ts' = t\<lparr>ForeignKeys := ForeignKeys t @ fks\<rparr> # ts1" and e1: "e1 = None"
    by auto
  have "fks_collect fks ([] @ scanned_rows scans)"
    using loop [unfolded e] fks_collect_Nil by (rule foreignKeys_loop_collects)
  then have "introspected query t (t\<lparr>ForeignKeys := ForeignKeys t @ fks\<rparr>)"
    using q re by (auto simp: introspected_def)
  moreover have "list_all2 (introspected query) ts ts1"
    using rec e1 by (intro Cons.IH) simp
  ultimately show ?case by (simp add: res)
qed

lemma foreignKeys_tables_unresolved:
  "t \<in> set ts \<Longrightarrow> query (Table_Name t) = Inr (scans, e) \<Longrightarrow> Inr r \<in> set scans \<Longrightarrow>
   unresolved lookup t r \<Longrightarrow> snd (foreignKeys_tables lookup query ts) \<noteq> None"
proof (induction ts)
  case Nil
  then show ?case by simp
next
  case (Cons t0 ts)
  show ?case
  proof (cases "t = t0")
    case True
    with Cons.prems have "snd (foreignKeys_loop lookup t0 [] scans) \<noteq> None"
      by (intro foreignKeys_loop_unresolved [where r = r]) simp_all
    with Cons.prems(2) True show ?thesis
      by (auto split: prod.splits option.splits)
  next
    case False
    with Cons have "snd (foreignKeys_tables lookup query ts) \<noteq> None" by simp
    then show ?thesis
      by (auto split: sum.splits prod.splits option.splits)
  qed
qed

lemma first_seen_aux:
  "distinct acc \<Longrightarrow> distinct (foldl append_new acc xs) \<and> set (foldl append_new acc xs) = set acc \<union> set xs"
  by (induction xs arbitrary: acc) (auto simp: append_new_def)

lemma first_seen_distinct: "distinct (first_seen xs) \<and> set (first_seen xs) = set xs"
  using first_seen_aux [of "[]" xs] by (simp add: first_seen_def)

text \<open>
  C9, amended. When \<^verbatim>\<open>foreignKeys\<close> succeeds, each table has gained one foreign key per
  constraint name of its rows; the local columns of a foreign key are the local columns
  named by the rows of its constraint, each once, in order of first appearance, and its
  referenced columns are the referenced columns named by those rows, each once, in order
  of first appearance (the two lists are filled independently of each other). When a
  row of some table names a referenced table, a local column or a referenced column that
  is not found among the loaded tables, \<^verbatim>\<open>foreignKeys\<close> returns an error.
\<close>

theorem foreignKeys_columns:
  "(foreignKeys query tables = (tables', None) \<longrightarrow>
      list_all2 (introspected query) tables tables')
   \<and> (t \<in> set tables \<and> query (Table_Name t) = Inr (scans, e) \<and> Inr r \<in> set scans
        \<and> unresolved (tableLookup tables) t r \<longrightarrow>
      snd (foreignKeys query tables) \<noteq> None)"
  using foreignKeys_tables_introspected [of "tableLookup tables" query tables tables']
    foreignKeys_tables_unresolved [of t tables query scans e r "tableLookup tables"]
  by (simp add: foreignKeys_def)

theorem foreignKeys_columns_witness:
  "foreignKeys shipments_fk_query [shipments, order_lines]
     = ([shipments\<lparr>ForeignKeys :=
                  [\<lparr>Symbol = ''fk_line'',
                    FK_Columns = [ex_col ''order_id'' TypeInt64, ex_col ''line_no'' TypeInt32],
                    RefTable = ''order_lines'',
                    RefColumns = [ex_col ''order_id'' TypeInt64, ex_col ''line_no'' TypeInt32]\<rparr>]\<rparr>,
         order_lines], None)
   \<and> snd (foreignKeys shipments_fk_query [shipments]) \<noteq> None"
proof -
  let ?res = "[shipments\<lparr>ForeignKeys :=
                  [\<lparr>Symbol = ''fk_line'',
                    FK_Columns = [ex_col ''order_id'' TypeInt64, ex_col ''line_no'' TypeInt32],
                    RefTable = ''order_lines'',
                    RefColumns = [ex_col ''order_id'' TypeInt64, ex_col ''line_no'' TypeInt32]\<rparr>]\<rparr>,
         order_lines]"
  have e: "foreignKeys shipments_fk_query [shipments, order_lines] = (?res, None)"
    by (simp add: foreignKeys_def tableLookup_def shipments_fk_query_def shipments_fk_rows_def
          shipments_def order_lines_def ex_table_def ex_fk_row_def Table_column_def
          column_named_def ex_col_def new_Column_def fk_append_def ForeignKey_column_def
          ForeignKey_refColumn_def Let_def)
  from foreignKeys_columns [THEN conjunct1, rule_format, OF e]
  have "list_all2 (introspected shipments_fk_query) [shipments, order_lines] ?res" .
  let ?r = "ex_fk_row ''fk_line'' ''shipments'' ''order_id'' ''order_lines'' ''order_id''"
  have h: "shipments \<in> set [shipments]
     \<and> shipments_fk_query (Table_Name shipments) = Inr (shipments_fk_rows, None)
     \<and> Inr ?r \<in> set shipments_fk_rows
     \<and> unresolved (tableLookup [shipments]) shipments ?r"
    by (simp add: shipments_fk_query_def shipments_def ex_table_def shipments_fk_rows_def
          unresolved_def tableLookup_def ex_fk_row_def)
  from foreignKeys_columns [where query = shipments_fk_query and tables = "[shipments]"
      and t = shipments and scans = shipments_fk_rows and e = None and r = ?r,
      THEN conjunct2, rule_format, OF h]
  have "snd (foreignKeys shipments_fk_query [shipments]) \<noteq> None" .
  with e show ?thesis by simp
qed

end
